theory Spec2Isabelle
  imports Main "HOL-Library.Char_ord" "HOL-Library.List_Lexorder"
begin

section \<open>JavaScript strings and numbers\<close>

text \<open>
  Strings are \<^typ>\<open>string\<close>; a string is truthy exactly when it is not empty, and a
  missing property (\<open>undefined\<close>) is \<open>None\<close>. Numbers that the program reads back from
  the store go through \<open>parseInt\<close>, which may give \<open>NaN\<close>: a number is an integer or
  \<open>NaN\<close>. Clock readings (\<open>Date.now()\<close>) are integers of milliseconds, far below the
  range where a double stops being exact, so unbounded integers stand for them.
\<close>

datatype number = Num int | NaN

definition digit_char :: "nat \<Rightarrow> char" where
  "digit_char d = ''0123456789'' ! d"

fun nat_toString :: "nat \<Rightarrow> string" where
  "nat_toString n =
     (if n < 10 then [digit_char n] else nat_toString (n div 10) @ [digit_char (n mod 10)])"

declare nat_toString.simps [simp del]

definition int_toString :: "int \<Rightarrow> string" where
  "int_toString i = (if i < 0 then ''-'' @ nat_toString (nat (- i)) else nat_toString (nat i))"

fun toString :: "number \<Rightarrow> string" where
  "toString (Num i) = int_toString i"
| "toString NaN = ''NaN''"

definition is_ws :: "char \<Rightarrow> bool" where
  "is_ws c = (c \<in> set [CHR 0x09, CHR 0x0A, CHR 0x0B, CHR 0x0C, CHR 0x0D, CHR '' ''])"

definition is_digit :: "char \<Rightarrow> bool" where
  "is_digit c = (48 \<le> (of_char c :: nat) \<and> (of_char c :: nat) \<le> 57)"

definition digit_val :: "char \<Rightarrow> nat" where
  "digit_val c = of_char c - 48"

definition is_hex_digit :: "char \<Rightarrow> bool" where
  "is_hex_digit c =
     (is_digit c \<or> (97 \<le> (of_char c :: nat) \<and> (of_char c :: nat) \<le> 102)
                 \<or> (65 \<le> (of_char c :: nat) \<and> (of_char c :: nat) \<le> 70))"

definition hex_val :: "char \<Rightarrow> nat" where
  "hex_val c =
     (if is_digit c then digit_val c
      else if 97 \<le> (of_char c :: nat) then of_char c - 87 else of_char c - 55)"

definition strip_sign :: "string \<Rightarrow> bool \<times> string" where
  "strip_sign s =
     (case s of
        [] \<Rightarrow> (False, [])
      | c # r \<Rightarrow> if c = CHR ''-'' then (True, r) else if c = CHR ''+'' then (False, r) else (False, s))"

definition digits_value :: "nat \<Rightarrow> (char \<Rightarrow> nat) \<Rightarrow> string \<Rightarrow> nat" where
  "digits_value radix val ds = foldl (\<lambda>a c. a * radix + val c) 0 ds"

text \<open>
  \<open>parseInt(s)\<close> with no radix: leading (ASCII) white space is skipped, a sign is read, a
  \<open>0x\<close>/\<open>0X\<close> prefix selects radix 16, the longest prefix of digits is the value, and
  no digit at all is \<open>NaN\<close>.
\<close>

definition parseInt :: "string \<Rightarrow> number" where
  "parseInt s =
     (let (neg, s2) = strip_sign (dropWhile is_ws s);
          hex = (take 2 s2 = ''0x'' \<or> take 2 s2 = ''0X'');
          ds = (if hex then takeWhile is_hex_digit (drop 2 s2) else takeWhile is_digit s2);
          v = (if hex then digits_value 16 hex_val ds else digits_value 10 digit_val ds)
      in if ds = [] then NaN else Num (if neg then - int v else int v))"

fun num_add :: "number \<Rightarrow> int \<Rightarrow> number" where
  "num_add (Num i) j = Num (i + j)"
| "num_add NaN j = NaN"

text \<open>\<open>s.split(c)\<close> for a one-character separator; the result is never empty.\<close>

fun split_on :: "char \<Rightarrow> string \<Rightarrow> string list" where
  "split_on c [] = [[]]"
| "split_on c (x # xs) =
     (if x = c then [] # split_on c xs
      else (case split_on c xs of [] \<Rightarrow> [[x]] | p # ps \<Rightarrow> (x # p) # ps))"

section \<open>The shared store\<close>

text \<open>
  The store is the Redis server the program talks to through its client: one key space,
  each key holding a hash (field to string) or a sorted set (members with integer scores,
  kept in ascending order of score, equal scores in byte order of the member), and a
  time-to-live per key. A command on a key of the other kind is refused with
  \<open>WRONGTYPE\<close>, a range bound that is \<open>NaN\<close> with \<open>ERR min or max is not a float\<close>;
  the client turns either into a rejected promise, which the \<open>await\<close> rethrows.
  The third error of the program is the \<open>TypeError\<close> that strict code throws on an
  assignment to a property that has a getter only.
  The time-to-live is recorded as \<open>expire\<close> sets it; the passing of time is not part of
  the model, a key that has expired is a key that is absent.
\<close>

datatype rvalue = Hash "string \<rightharpoonup> string" | ZSet "(int \<times> string) list"

record store =
  vals :: "string \<rightharpoonup> rvalue"
  ttl :: "string \<rightharpoonup> nat"

datatype error = WRONGTYPE | ERR_not_a_float | TypeError

datatype bound = NegInf | PosInf | Score number

definition hSet :: "string \<Rightarrow> (string \<times> string) list \<Rightarrow> store \<Rightarrow> error + store" where
  "hSet key fvs S =
     (case vals S key of
        None \<Rightarrow> Inr (S\<lparr>vals := (vals S)(key \<mapsto> Hash (foldl (\<lambda>h (f, v). h(f \<mapsto> v)) Map.empty fvs))\<rparr>)
      | Some (Hash h) \<Rightarrow> Inr (S\<lparr>vals := (vals S)(key \<mapsto> Hash (foldl (\<lambda>h (f, v). h(f \<mapsto> v)) h fvs))\<rparr>)
      | Some (ZSet zs) \<Rightarrow> Inl WRONGTYPE)"

definition hGetAll :: "string \<Rightarrow> store \<Rightarrow> error + (string \<rightharpoonup> string)" where
  "hGetAll key S =
     (case vals S key of
        None \<Rightarrow> Inr Map.empty
      | Some (Hash h) \<Rightarrow> Inr h
      | Some (ZSet zs) \<Rightarrow> Inl WRONGTYPE)"

fun zinsert :: "int \<times> string \<Rightarrow> (int \<times> string) list \<Rightarrow> (int \<times> string) list" where
  "zinsert x [] = [x]"
| "zinsert x (y # zs) =
     (if fst x < fst y \<or> (fst x = fst y \<and> snd x < snd y) then x # y # zs else y # zinsert x zs)"

definition zAdd :: "string \<Rightarrow> int \<Rightarrow> string \<Rightarrow> store \<Rightarrow> error + store" where
  "zAdd key score member S =
     (case vals S key of
        None \<Rightarrow> Inr (S\<lparr>vals := (vals S)(key \<mapsto> ZSet [(score, member)])\<rparr>)
      | Some (ZSet zs) \<Rightarrow>
          Inr (S\<lparr>vals := (vals S)(key \<mapsto> ZSet (zinsert (score, member) (filter (\<lambda>z. snd z \<noteq> member) zs)))\<rparr>)
      | Some (Hash h) \<Rightarrow> Inl WRONGTYPE)"

fun above :: "bound \<Rightarrow> int \<Rightarrow> bool" where
  "above NegInf s = True"
| "above PosInf s = False"
| "above (Score (Num b)) s = (b \<le> s)"
| "above (Score NaN) s = False"

fun below :: "bound \<Rightarrow> int \<Rightarrow> bool" where
  "below NegInf s = False"
| "below PosInf s = True"
| "below (Score (Num b)) s = (s \<le> b)"
| "below (Score NaN) s = False"

definition in_range :: "bound \<Rightarrow> bound \<Rightarrow> int \<times> string \<Rightarrow> bool" where
  "in_range lo hi z = (above lo (fst z) \<and> below hi (fst z))"

definition zRangeByScore :: "string \<Rightarrow> bound \<Rightarrow> bound \<Rightarrow> store \<Rightarrow> error + string list" where
  "zRangeByScore key lo hi S =
     (if lo = Score NaN \<or> hi = Score NaN then Inl ERR_not_a_float
      else case vals S key of
        None \<Rightarrow> Inr []
      | Some (ZSet zs) \<Rightarrow> Inr (map snd (filter (in_range lo hi) zs))
      | Some (Hash h) \<Rightarrow> Inl WRONGTYPE)"

definition del :: "string \<Rightarrow> store \<Rightarrow> store" where
  "del key S = S\<lparr>vals := (vals S)(key := None), ttl := (ttl S)(key := None)\<rparr>"

definition zRemRangeByScore :: "string \<Rightarrow> bound \<Rightarrow> bound \<Rightarrow> store \<Rightarrow> error + store" where
  "zRemRangeByScore key lo hi S =
     (if lo = Score NaN \<or> hi = Score NaN then Inl ERR_not_a_float
      else case vals S key of
        None \<Rightarrow> Inr S
      | Some (ZSet zs) \<Rightarrow>
          (let zs' = filter (\<lambda>z. \<not> in_range lo hi z) zs
           in if zs' = [] then Inr (del key S) else Inr (S\<lparr>vals := (vals S)(key \<mapsto> ZSet zs')\<rparr>))
      | Some (Hash h) \<Rightarrow> Inl WRONGTYPE)"

definition expire :: "string \<Rightarrow> nat \<Rightarrow> store \<Rightarrow> store" where
  "expire key seconds S = (if vals S key = None then S else S\<lparr>ttl := (ttl S)(key \<mapsto> seconds)\<rparr>)"

definition exists :: "string \<Rightarrow> store \<Rightarrow> nat" where
  "exists key S = (if vals S key = None then 0 else 1)"

section \<open>The event log (class RedisEventStore)\<close>

text \<open>
  The clock readings and the random suffix that a call consumes are arguments:
  \<open>now_id\<close> is the \<open>Date.now()\<close> inside \<open>generateEventId\<close>, \<open>now_ts\<close> the one that
  becomes the timestamp, \<open>rnd\<close> is \<open>Math.random().toString(36).substring(2, 10)\<close>.
  \<open>JSON.stringify\<close> and \<open>JSON.parse\<close> are arguments too (\<open>None\<close> is a thrown
  \<open>SyntaxError\<close>). A function that awaits the store returns its outcome together with the
  store as the call left it, so that what was written before a failure stays written.
\<close>

definition event_key :: "string \<Rightarrow> string" where
  "event_key eventId = ''event:'' @ eventId"

definition stream_key :: "string \<Rightarrow> string" where
  "stream_key streamId = ''stream:'' @ streamId"

definition generateEventId :: "string \<Rightarrow> int \<Rightarrow> string \<Rightarrow> string" where
  "generateEventId streamId now_id rnd = streamId @ ''_'' @ int_toString now_id @ ''_'' @ rnd"

definition getStreamIdFromEventId :: "string \<Rightarrow> string" where
  "getStreamIdFromEventId eventId =
     (let parts = split_on (CHR ''_'') eventId in if length parts > 0 then parts ! 0 else [])"

definition storeEvent ::
  "('m \<Rightarrow> string) \<Rightarrow> string \<Rightarrow> 'm \<Rightarrow> int \<Rightarrow> int \<Rightarrow> string \<Rightarrow> store \<Rightarrow> (error + string) \<times> store" where
  "storeEvent stringify streamId message now_id now_ts rnd S =
     (let eventId = generateEventId streamId now_id rnd;
          timestamp = now_ts
      in case hSet (event_key eventId)
                [(''streamId'', streamId),
                 (''message'', stringify message),
                 (''timestamp'', int_toString timestamp)] S of
           Inl e \<Rightarrow> (Inl e, S)
         | Inr S1 \<Rightarrow>
             (case zAdd (stream_key streamId) timestamp eventId S1 of
                Inl e \<Rightarrow> (Inl e, S1)
              | Inr S2 \<Rightarrow>
                  (Inr eventId,
                   expire (stream_key streamId) (24 * 60 * 60)
                     (expire (event_key eventId) (24 * 60 * 60) S2))))"

text \<open>
  The sink \<open>send\<close> is the caller's: it acts on a state of the caller's own and resolves
  or rejects. A rejection is caught by the same handler as a parse error, so both
  outcomes continue with the next event.
\<close>

datatype settled = Resolved | Rejected

fun replay_loop ::
  "(string \<Rightarrow> 'm option) \<Rightarrow> (string \<Rightarrow> 'm \<Rightarrow> 'k \<Rightarrow> settled \<times> 'k) \<Rightarrow> store \<Rightarrow> string list \<Rightarrow> 'k
     \<Rightarrow> (error + unit) \<times> 'k" where
  "replay_loop parse send S [] k = (Inr (), k)"
| "replay_loop parse send S (eventId # rest) k =
     (case hGetAll (event_key eventId) S of
        Inl e \<Rightarrow> (Inl e, k)
      | Inr eventData \<Rightarrow>
          (case eventData ''message'' of
             None \<Rightarrow> replay_loop parse send S rest k
           | Some text \<Rightarrow>
               if text = [] then replay_loop parse send S rest k
               else (case parse text of
                       None \<Rightarrow> replay_loop parse send S rest k
                     | Some message \<Rightarrow>
                         (case send eventId message k of
                            (Resolved, k') \<Rightarrow> replay_loop parse send S rest k'
                          | (Rejected, k') \<Rightarrow> replay_loop parse send S rest k'))))"

definition replayEventsAfter ::
  "(string \<Rightarrow> 'm option) \<Rightarrow> string \<Rightarrow> (string \<Rightarrow> 'm \<Rightarrow> 'k \<Rightarrow> settled \<times> 'k) \<Rightarrow> 'k \<Rightarrow> store
     \<Rightarrow> (error + string) \<times> 'k" where
  "replayEventsAfter parse lastEventId send k S =
     (if lastEventId = [] then (Inr [], k)
      else let streamId = getStreamIdFromEventId lastEventId in
        if streamId = [] then (Inr [], k)
        else case hGetAll (event_key lastEventId) S of
          Inl e \<Rightarrow> (Inl e, k)
        | Inr lastEventData \<Rightarrow>
            (case lastEventData ''timestamp'' of
               None \<Rightarrow> (Inr [], k)
             | Some ts \<Rightarrow>
                 if ts = [] then (Inr [], k)
                 else let lastTimestamp = parseInt ts in
                   (case zRangeByScore (stream_key streamId) (Score (num_add lastTimestamp 1)) PosInf S of
                      Inl e \<Rightarrow> (Inl e, k)
                    | Inr eventIds \<Rightarrow>
                        (case replay_loop parse send S eventIds k of
                           (Inl e, k') \<Rightarrow> (Inl e, k')
                         | (Inr u, k') \<Rightarrow> (Inr streamId, k')))))"

fun del_events :: "string list \<Rightarrow> store \<Rightarrow> store" where
  "del_events [] S = S"
| "del_events (eventId # rest) S = del_events rest (del (event_key eventId) S)"

definition cleanupOldEvents :: "string \<Rightarrow> int \<Rightarrow> int \<Rightarrow> store \<Rightarrow> (error + unit) \<times> store" where
  "cleanupOldEvents streamId olderThanMs now S =
     (let cutoffTime = now - olderThanMs
      in case zRangeByScore (stream_key streamId) NegInf (Score (Num cutoffTime)) S of
           Inl e \<Rightarrow> (Inl e, S)
         | Inr oldEventIds \<Rightarrow>
             (let S1 = del_events oldEventIds S
              in case zRemRangeByScore (stream_key streamId) NegInf (Score (Num cutoffTime)) S1 of
                   Inl e \<Rightarrow> (Inl e, S1)
                 | Inr S2 \<Rightarrow> (Inr (), S2)))"

text \<open>A caller that appends a sequence of messages to one stream, each with its own
  clock readings and random suffix, and collects the identifiers returned.\<close>

fun storeEvents ::
  "('m \<Rightarrow> string) \<Rightarrow> string \<Rightarrow> ('m \<times> int \<times> int \<times> string) list \<Rightarrow> store
     \<Rightarrow> (error + string list) \<times> store" where
  "storeEvents stringify streamId [] S = (Inr [], S)"
| "storeEvents stringify streamId ((message, now_id, now_ts, rnd) # rest) S =
     (case storeEvent stringify streamId message now_id now_ts rnd S of
        (Inl e, S1) \<Rightarrow> (Inl e, S1)
      | (Inr eventId, S1) \<Rightarrow>
          (case storeEvents stringify streamId rest S1 of
             (Inl e, S2) \<Rightarrow> (Inl e, S2)
           | (Inr eventIds, S2) \<Rightarrow> (Inr (eventId # eventIds), S2)))"

section \<open>The session registry (class SessionManager, stateless variant)\<close>

text \<open>
  A transport is an object of the process: the process keeps its objects in a heap, a
  reference is an index into it, and \<open>new\<close> appends. The local cache maps session
  identifiers to references, so two holders of a reference see the same object. A
  reference that a caller holds is an index of the heap; the facts below that read the
  object behind a reference say so (\<open>r < length (heap N)\<close>). The transports come from
  the protocol library (the version that \<open>package.json\<close> asks for, 1.17.0 or later)
  and not from this program: an object has the fields the program reads and writes.
  A close hook is a closure over the session identifier;
  it is kept as data and run by \<open>run_onclose\<close>. A property read from the store's
  reply that may be \<open>undefined\<close> is an option.
\<close>

datatype transport_type = Streamable | SSE

fun transport_type_name :: "transport_type \<Rightarrow> string" where
  "transport_type_name Streamable = ''streamable''"
| "transport_type_name SSE = ''sse''"

datatype transport_class = StreamableHTTPServerTransport | SSEServerTransport

datatype onclose_hook = Stateless_onclose string | Owning_onclose string

record 'r transport =
  t_class :: transport_class
  t_endpoint :: string
  t_res :: "'r option"
  t_sessionId :: string
  t_onclose :: "onclose_hook option"

text \<open>\<open>new SSEServerTransport(endpoint, res)\<close>; the constructor draws a random session
  identifier, here the argument \<open>uuid\<close>.\<close>

definition new_SSEServerTransport :: "string \<Rightarrow> 'r \<Rightarrow> string \<Rightarrow> 'r transport" where
  "new_SSEServerTransport endpoint res uuid =
     \<lparr>t_class = SSEServerTransport, t_endpoint = endpoint, t_res = Some res,
      t_sessionId = uuid, t_onclose = None\<rparr>"

text \<open>\<open>transport.sessionId = sid\<close>. The library's \<open>SSEServerTransport\<close> exposes its
  session identifier through an accessor that has a getter and no setter, and the
  program is strict code (its compiled files open with \<open>use strict\<close>), where such
  an assignment throws a \<open>TypeError\<close>; the cast to \<open>any\<close> silences the type
  checker only. A \<open>StreamableHTTPServerTransport\<close> keeps the identifier in a plain property.\<close>

definition assign_sessionId :: "'r transport \<Rightarrow> string \<Rightarrow> error + 'r transport" where
  "assign_sessionId t sid =
     (case t_class t of
        SSEServerTransport \<Rightarrow> Inl TypeError
      | StreamableHTTPServerTransport \<Rightarrow> Inr (t\<lparr>t_sessionId := sid\<rparr>))"

record sse_state =
  isConnected :: bool
  lastEventId :: "string option"

record SessionMetadata =
  sessionId :: "string option"
  transportType :: "string option"
  createdAt :: number
  lastActive :: number
  sseState :: "sse_state option"

record 'r node =
  nodeId :: string
  localTransports :: "string \<rightharpoonup> nat"
  heap :: "'r transport list"

definition session_key :: "string \<Rightarrow> string" where
  "session_key sid = ''session:'' @ sid"

text \<open>A property whose value is \<open>undefined\<close> is not written. No call of the program
  serialises such a record: a record read from the store is written back only after its
  kind was found to be \<open>'sse'\<close>, and \<open>getSession\<close> returns none without an identifier.\<close>

fun property :: "string \<Rightarrow> string option \<Rightarrow> (string \<times> string) list" where
  "property name None = []"
| "property name (Some v) = [(name, v)]"

definition serializeMetadata ::
  "(sse_state \<Rightarrow> string) \<Rightarrow> SessionMetadata \<Rightarrow> (string \<times> string) list" where
  "serializeMetadata stringify metadata =
     property ''sessionId'' (sessionId metadata) @
     property ''transportType'' (transportType metadata) @
     [(''createdAt'', toString (createdAt metadata)),
      (''lastActive'', toString (lastActive metadata))] @
     (case sseState metadata of
        None \<Rightarrow> []
      | Some st \<Rightarrow> [(''sseState'', stringify st)])"

text \<open>\<open>parseInt(undefined)\<close> is \<open>NaN\<close>.\<close>

fun parseInt_property :: "string option \<Rightarrow> number" where
  "parseInt_property None = NaN"
| "parseInt_property (Some s) = parseInt s"

text \<open>\<open>JSON.parse\<close> on the sub-state blob is the argument \<open>parse\<close>, at the type the
  program declares for the result; \<open>None\<close> is a thrown \<open>SyntaxError\<close>, which the
  \<open>catch\<close> logs.\<close>

definition deserializeMetadata ::
  "(string \<Rightarrow> sse_state option) \<Rightarrow> (string \<rightharpoonup> string) \<Rightarrow> SessionMetadata" where
  "deserializeMetadata parse data =
     (let metadata = \<lparr>sessionId = data ''sessionId'',
                      transportType = data ''transportType'',
                      createdAt = parseInt_property (data ''createdAt''),
                      lastActive = parseInt_property (data ''lastActive''),
                      sseState = None\<rparr>
      in case data ''sseState'' of
           None \<Rightarrow> metadata
         | Some blob \<Rightarrow>
             if blob = [] then metadata
             else (case parse blob of
                     None \<Rightarrow> metadata
                   | Some st \<Rightarrow> metadata\<lparr>sseState := Some st\<rparr>))"

definition getSession ::
  "(string \<Rightarrow> sse_state option) \<Rightarrow> string \<Rightarrow> store \<Rightarrow> error + SessionMetadata option" where
  "getSession parse sid S =
     (case hGetAll (session_key sid) S of
        Inl e \<Rightarrow> Inl e
      | Inr data \<Rightarrow>
          (case data ''sessionId'' of
             None \<Rightarrow> Inr None
           | Some v \<Rightarrow> if v = [] then Inr None else Inr (Some (deserializeMetadata parse data))))"

definition sessionExists :: "string \<Rightarrow> store \<Rightarrow> bool" where
  "sessionExists sid S = (exists (session_key sid) S = 1)"

definition getLocalTransport :: "string \<Rightarrow> 'r node \<Rightarrow> nat option" where
  "getLocalTransport sid N = localTransports N sid"

definition registerSession ::
  "(sse_state \<Rightarrow> string) \<Rightarrow> string \<Rightarrow> nat \<Rightarrow> transport_type \<Rightarrow> int \<Rightarrow> int \<Rightarrow> store \<Rightarrow> 'r node
     \<Rightarrow> (error + unit) \<times> store \<times> 'r node" where
  "registerSession stringify sid transport tt now_created now_active S N =
     (let metadata = \<lparr>sessionId = Some sid,
                      transportType = Some (transport_type_name tt),
                      createdAt = Num now_created,
                      lastActive = Num now_active,
                      sseState = (if tt = SSE then Some \<lparr>isConnected = True, lastEventId = None\<rparr>
                                  else None)\<rparr>
      in case hSet (session_key sid) (serializeMetadata stringify metadata) S of
           Inl e \<Rightarrow> (Inl e, S, N)
         | Inr S1 \<Rightarrow>
             (let S2 = expire (session_key sid) (30 * 60) S1;
                  N1 = N\<lparr>localTransports := (localTransports N)(sid \<mapsto> transport)\<rparr>;
                  N2 = N1\<lparr>heap := (heap N1)[transport :=
                              (heap N1 ! transport)\<lparr>t_onclose := Some (Stateless_onclose sid)\<rparr>]\<rparr>
              in (Inr (), S2, N2)))"

definition markSessionDisconnected ::
  "(sse_state \<Rightarrow> string) \<Rightarrow> (string \<Rightarrow> sse_state option) \<Rightarrow> string \<Rightarrow> int \<Rightarrow> store
     \<Rightarrow> (error + unit) \<times> store" where
  "markSessionDisconnected stringify parse sid now S =
     (case getSession parse sid S of
        Inl e \<Rightarrow> (Inl e, S)
      | Inr None \<Rightarrow> (Inr (), S)
      | Inr (Some metadata) \<Rightarrow>
          if transportType metadata = Some ''sse'' then
            (case sseState metadata of
               None \<Rightarrow> (Inr (), S)
             | Some st \<Rightarrow>
                 (let metadata' = metadata\<lparr>sseState := Some (st\<lparr>isConnected := False\<rparr>),
                                           lastActive := Num now\<rparr>
                  in case hSet (session_key sid) (serializeMetadata stringify metadata') S of
                       Inl e \<Rightarrow> (Inl e, S)
                     | Inr S1 \<Rightarrow> (Inr (), S1)))
          else (Inr (), S))"

definition isSSEConnected ::
  "(string \<Rightarrow> sse_state option) \<Rightarrow> string \<Rightarrow> store \<Rightarrow> error + bool" where
  "isSSEConnected parse sid S =
     (case getSession parse sid S of
        Inl e \<Rightarrow> Inl e
      | Inr None \<Rightarrow> Inr False
      | Inr (Some metadata) \<Rightarrow>
          Inr (transportType metadata = Some ''sse'' \<and>
               (case sseState metadata of None \<Rightarrow> False | Some st \<Rightarrow> isConnected st)))"

text \<open>The local handle, when it is an \<open>SSEServerTransport\<close>.\<close>

definition local_sse_transport :: "string \<Rightarrow> 'r node \<Rightarrow> nat option" where
  "local_sse_transport sid N =
     (case localTransports N sid of
        None \<Rightarrow> None
      | Some r \<Rightarrow> if t_class (heap N ! r) = SSEServerTransport then Some r else None)"

definition getOrCreateSSETransport ::
  "(sse_state \<Rightarrow> string) \<Rightarrow> (string \<Rightarrow> sse_state option) \<Rightarrow> string \<Rightarrow> 'r option \<Rightarrow> string
     \<Rightarrow> store \<Rightarrow> 'r node \<Rightarrow> (error + nat option) \<times> store \<times> 'r node" where
  "getOrCreateSSETransport stringify parse sid res uuid S N =
     (case getSession parse sid S of
        Inl e \<Rightarrow> (Inl e, S, N)
      | Inr None \<Rightarrow> (Inr None, S, N)
      | Inr (Some metadata) \<Rightarrow>
          if transportType metadata \<noteq> Some ''sse'' then (Inr None, S, N)
          else (case local_sse_transport sid N of
                  Some r \<Rightarrow> (Inr (Some r), S, N)
                | None \<Rightarrow>
                    (case res of
                       None \<Rightarrow> (Inr None, S, N)
                     | Some response \<Rightarrow>
                         (let transport = length (heap N);
                              N1 = N\<lparr>heap := heap N @ [new_SSEServerTransport ''/messages'' response uuid]\<rparr>
                          in case assign_sessionId (heap N1 ! transport) sid of
                               Inl e \<Rightarrow> (Inl e, S, N1)
                             | Inr assigned \<Rightarrow>
                                 (let N2 = N1\<lparr>heap := (heap N1)[transport := assigned]\<rparr>;
                                      N3 = N2\<lparr>localTransports := (localTransports N2)(sid \<mapsto> transport)\<rparr>;
                                      metadata' = (case sseState metadata of
                                                     None \<Rightarrow> metadata
                                                   | Some st \<Rightarrow> metadata\<lparr>sseState := Some (st\<lparr>isConnected := True\<rparr>)\<rparr>)
                                  in case hSet (session_key sid) (serializeMetadata stringify metadata') S of
                                       Inl e \<Rightarrow> (Inl e, S, N3)
                                     | Inr S1 \<Rightarrow> (Inr (Some transport), S1, N3))))))"

definition removeSession :: "string \<Rightarrow> store \<Rightarrow> 'r node \<Rightarrow> store \<times> 'r node" where
  "removeSession sid S N =
     (del (session_key sid) S, N\<lparr>localTransports := (localTransports N)(sid := None)\<rparr>)"

text \<open>The body of the close hook that \<open>registerSession\<close> installs.\<close>

definition stateless_onclose ::
  "(sse_state \<Rightarrow> string) \<Rightarrow> (string \<Rightarrow> sse_state option) \<Rightarrow> string \<Rightarrow> int \<Rightarrow> store \<Rightarrow> 'r node
     \<Rightarrow> (error + unit) \<times> store \<times> 'r node" where
  "stateless_onclose stringify parse sid now S N =
     (case markSessionDisconnected stringify parse sid now S of
        (Inl e, S1) \<Rightarrow> (Inl e, S1, N)
      | (Inr u, S1) \<Rightarrow> (Inr (), S1, N\<lparr>localTransports := (localTransports N)(sid := None)\<rparr>))"

section \<open>The session registry, ownership-tracking variant\<close>

text \<open>
  The compiled earlier variant of the class records the owning node in the metadata and
  has no sub-state; its close hook unregisters the session. The client writes the
  numbers of the metadata object as their decimal strings.
\<close>

definition owning_unregisterSession :: "string \<Rightarrow> store \<Rightarrow> 'r node \<Rightarrow> store \<times> 'r node" where
  "owning_unregisterSession sid S N =
     (del (session_key sid) S, N\<lparr>localTransports := (localTransports N)(sid := None)\<rparr>)"

definition owning_registerSession ::
  "string \<Rightarrow> nat \<Rightarrow> transport_type \<Rightarrow> int \<Rightarrow> int \<Rightarrow> store \<Rightarrow> 'r node
     \<Rightarrow> (error + unit) \<times> store \<times> 'r node" where
  "owning_registerSession sid transport tt now_created now_active S N =
     (let metadata = [(''sessionId'', sid),
                      (''transportType'', transport_type_name tt),
                      (''nodeId'', nodeId N),
                      (''createdAt'', toString (Num now_created)),
                      (''lastActive'', toString (Num now_active))]
      in case hSet (session_key sid) metadata S of
           Inl e \<Rightarrow> (Inl e, S, N)
         | Inr S1 \<Rightarrow>
             (let S2 = expire (session_key sid) (30 * 60) S1;
                  N1 = N\<lparr>localTransports := (localTransports N)(sid \<mapsto> transport)\<rparr>;
                  N2 = N1\<lparr>heap := (heap N1)[transport :=
                              (heap N1 ! transport)\<lparr>t_onclose := Some (Owning_onclose sid)\<rparr>]\<rparr>
              in (Inr (), S2, N2)))"

definition owning_onclose :: "string \<Rightarrow> store \<Rightarrow> 'r node \<Rightarrow> (error + unit) \<times> store \<times> 'r node" where
  "owning_onclose sid S N =
     (case owning_unregisterSession sid S N of (S1, N1) \<Rightarrow> (Inr (), S1, N1))"

text \<open>The connection behind the transport \<open>r\<close> closes: its hook, if it has one, runs.\<close>

definition run_onclose ::
  "(sse_state \<Rightarrow> string) \<Rightarrow> (string \<Rightarrow> sse_state option) \<Rightarrow> nat \<Rightarrow> int \<Rightarrow> store \<Rightarrow> 'r node
     \<Rightarrow> (error + unit) \<times> store \<times> 'r node" where
  "run_onclose stringify parse r now S N =
     (case t_onclose (heap N ! r) of
        None \<Rightarrow> (Inr (), S, N)
      | Some (Stateless_onclose sid) \<Rightarrow> stateless_onclose stringify parse sid now S N
      | Some (Owning_onclose sid) \<Rightarrow> owning_onclose sid S N)"

section \<open>A fresh store, a recording sink and a sub-state codec\<close>

text \<open>Concrete values for the examples: the store of a server just started, a sink that
  records what it is sent, and the JSON text of a sub-state that has no cursor.\<close>

definition fresh_store :: store where
  "fresh_store = \<lparr>vals = Map.empty, ttl = Map.empty\<rparr>"

definition recording_sink ::
  "string \<Rightarrow> 'm \<Rightarrow> (string \<times> 'm) list \<Rightarrow> settled \<times> (string \<times> 'm) list" where
  "recording_sink eventId message log = (Resolved, log @ [(eventId, message)])"

definition sse_text :: "bool \<Rightarrow> string" where
  "sse_text b =
     ''{'' @ [CHR 0x22] @ ''isConnected'' @ [CHR 0x22] @ '':'' @ (if b then ''true'' else ''false'') @ ''}''"

definition sse_stringify :: "sse_state \<Rightarrow> string" where
  "sse_stringify st = sse_text (isConnected st)"

definition sse_parse :: "string \<Rightarrow> sse_state option" where
  "sse_parse s =
     (if s = sse_text True then Some \<lparr>isConnected = True, lastEventId = None\<rparr>
      else if s = sse_text False then Some \<lparr>isConnected = False, lastEventId = None\<rparr>
      else None)"

section \<open>Reading the store\<close>

text \<open>The entries of the sorted set at a key (none when the key is absent), a field of
  the record of an event, the parts of one append of a sequence (its message, the clock
  reading that becomes its timestamp, and the identifier it is given), the fields of the
  hash at a key, and the tests that a key holds no hash, or no sorted set, so that the
  commands of the other kind are not refused there.\<close>

definition zset_at :: "store \<Rightarrow> string \<Rightarrow> (int \<times> string) list" where
  "zset_at S key = (case vals S key of Some (ZSet zs) \<Rightarrow> zs | _ \<Rightarrow> [])"

definition event_field :: "store \<Rightarrow> string \<Rightarrow> string \<Rightarrow> string option" where
  "event_field S eventId f = (case vals S (event_key eventId) of Some (Hash h) \<Rightarrow> h f | _ \<Rightarrow> None)"

definition append_msg :: "'m \<times> int \<times> int \<times> string \<Rightarrow> 'm" where
  "append_msg x = fst x"

definition append_ts :: "'m \<times> int \<times> int \<times> string \<Rightarrow> int" where
  "append_ts x = fst (snd (snd x))"

definition append_id :: "string \<Rightarrow> 'm \<times> int \<times> int \<times> string \<Rightarrow> string" where
  "append_id streamId x = generateEventId streamId (fst (snd x)) (snd (snd (snd x)))"

definition no_hash_at :: "store \<Rightarrow> string \<Rightarrow> bool" where
  "no_hash_at S key = (case vals S key of Some (Hash h) \<Rightarrow> False | _ \<Rightarrow> True)"


definition hash_at :: "store \<Rightarrow> string \<Rightarrow> (string \<rightharpoonup> string)" where
  "hash_at S key = (case vals S key of Some (Hash h) \<Rightarrow> h | _ \<Rightarrow> Map.empty)"

definition no_zset_at :: "store \<Rightarrow> string \<Rightarrow> bool" where
  "no_zset_at S key = (case vals S key of Some (ZSet zs) \<Rightarrow> False | _ \<Rightarrow> True)"

text \<open>In the words of the claim about skipped events: of a list of event identifiers,
  those whose record is in the store with a payload that is not empty and parses, each
  with its message, in the order of the list. The others contribute nothing.\<close>

fun readable_events :: "(string \<Rightarrow> 'm option) \<Rightarrow> store \<Rightarrow> string list \<Rightarrow> (string \<times> 'm) list" where
  "readable_events parse S [] = []"
| "readable_events parse S (eventId # rest) =
     (case event_field S eventId ''message'' of
        None \<Rightarrow> readable_events parse S rest
      | Some text \<Rightarrow>
          if text = [] then readable_events parse S rest
          else (case parse text of
                  None \<Rightarrow> readable_events parse S rest
                | Some message \<Rightarrow> (eventId, message) # readable_events parse S rest))"

text \<open>The scenario of two appends to the stream \<open>s1\<close>, at 100 ms and at 150 ms, a
  message being given by its JSON text; and two appends within the same millisecond.\<close>

definition scenario_appends :: "(string \<times> int \<times> int \<times> string) list" where
  "scenario_appends = [(''m1'', 100, 100, ''aaaaaaaa''), (''m2'', 150, 150, ''bbbbbbbb'')]"

definition scenario_store :: store where
  "scenario_store = snd (storeEvents id ''s1'' scenario_appends fresh_store)"

definition same_ms_appends :: "(string \<times> int \<times> int \<times> string) list" where
  "same_ms_appends = [(''m1'', 100, 100, ''aaaaaaaa''), (''m2'', 100, 100, ''bbbbbbbb'')]"

text \<open>A node with two transports of its own, one of each class; another node that
  holds nothing; the record of a streaming session \<open>abc\<close> as \<open>registerSession\<close>
  writes it at 10 ms; the same record with a sub-state blob that does not decode; and
  the registration of a request/response session \<open>xyz\<close>.\<close>

definition example_node :: "unit node" where
  "example_node =
     \<lparr>nodeId = ''node-1'', localTransports = Map.empty,
      heap = [\<lparr>t_class = StreamableHTTPServerTransport, t_endpoint = [], t_res = None,
               t_sessionId = ''xyz'', t_onclose = None\<rparr>,
              new_SSEServerTransport ''/messages'' () ''abc'']\<rparr>"

definition other_node :: "unit node" where
  "other_node = \<lparr>nodeId = ''node-2'', localTransports = Map.empty, heap = []\<rparr>"

definition sse_session_store :: store where
  "sse_session_store =
     \<lparr>vals = [session_key ''abc'' \<mapsto>
                Hash [''sessionId'' \<mapsto> ''abc'', ''transportType'' \<mapsto> ''sse'',
                      ''createdAt'' \<mapsto> ''10'', ''lastActive'' \<mapsto> ''10'',
                      ''sseState'' \<mapsto> sse_text True]],
      ttl = [session_key ''abc'' \<mapsto> 1800]\<rparr>"

definition broken_sse_store :: store where
  "broken_sse_store =
     \<lparr>vals = [session_key ''abc'' \<mapsto>
                Hash [''sessionId'' \<mapsto> ''abc'', ''transportType'' \<mapsto> ''sse'',
                      ''createdAt'' \<mapsto> ''10'', ''lastActive'' \<mapsto> ''10'',
                      ''sseState'' \<mapsto> ''{oops'']],
      ttl = [session_key ''abc'' \<mapsto> 1800]\<rparr>"

definition streamable_registration :: "(error + unit) \<times> store \<times> unit node" where
  "streamable_registration =
     registerSession sse_stringify ''xyz'' 0 Streamable 10 10 fresh_store example_node"

text \<open>The node of the first example once it has registered the streaming session
  \<open>abc\<close> with its second transport; and a store whose stream \<open>s\<close> has four events
  in its index, the record of the third being gone.\<close>

definition sse_registered_node :: "unit node" where
  "sse_registered_node =
     example_node\<lparr>localTransports := [''abc'' \<mapsto> 1],
       heap := (heap example_node)[1 := (heap example_node ! 1)\<lparr>t_onclose := Some (Stateless_onclose ''abc'')\<rparr>]\<rparr>"

definition gap_store :: store where
  "gap_store =
     \<lparr>vals = [event_key ''s_1_a'' \<mapsto> Hash [''message'' \<mapsto> ''m1'', ''timestamp'' \<mapsto> ''1''],
              event_key ''s_2_b'' \<mapsto> Hash [''message'' \<mapsto> ''m2'', ''timestamp'' \<mapsto> ''2''],
              event_key ''s_4_d'' \<mapsto> Hash [''message'' \<mapsto> ''m4'', ''timestamp'' \<mapsto> ''4''],
              stream_key ''s'' \<mapsto>
                ZSet [(1, ''s_1_a''), (2, ''s_2_b''), (3, ''s_3_c''), (4, ''s_4_d'')]],
      ttl = Map.empty\<rparr>"

section \<open>Facts about strings and numbers\<close>

lemma split_on_nonempty: "split_on c s \<noteq> []"
  by (induction s) (auto split: list.splits)

lemma split_on_first: "split_on c s ! 0 = takeWhile (\<lambda>x. x \<noteq> c) s"
  by (induction s) (auto split: list.splits simp: split_on_nonempty)

lemma getStreamId_takeWhile:
  "getStreamIdFromEventId eventId = takeWhile (\<lambda>x. x \<noteq> CHR ''_'') eventId"
  by (simp add: getStreamIdFromEventId_def Let_def split_on_first split_on_nonempty)

lemma getStreamId_generate:
  "CHR ''_'' \<notin> set streamId \<Longrightarrow>
   getStreamIdFromEventId (generateEventId streamId now_id rnd) = streamId"
  by (auto simp: getStreamId_takeWhile generateEventId_def takeWhile_tail)

lemma below_ten: "d < 10 \<Longrightarrow> d \<in> {0, 1, 2, 3, 4, 5, 6, 7, 8, 9::nat}"
  by auto

lemma digit_char_is_digit: "d < 10 \<Longrightarrow> is_digit (digit_char d)"
  by (drule below_ten) (auto simp: is_digit_def digit_char_def)

lemma digit_val_digit_char: "d < 10 \<Longrightarrow> digit_val (digit_char d) = d"
  by (drule below_ten) (auto simp: digit_val_def digit_char_def)

lemma nat_toString_digits: "\<forall>c \<in> set (nat_toString n). is_digit c"
  by (induction n rule: nat_toString.induct)
     (subst nat_toString.simps, auto simp: digit_char_is_digit)

lemma nat_toString_nonempty: "nat_toString n \<noteq> []"
  by (subst nat_toString.simps) simp

lemma nat_toString_value: "digits_value 10 digit_val (nat_toString n) = n"
  by (induction n rule: nat_toString.induct)
     (subst nat_toString.simps, auto simp: digits_value_def digit_val_digit_char)

lemma is_digit_not_ws: "is_digit c \<Longrightarrow> \<not> is_ws c"
  by (auto simp: is_digit_def is_ws_def)

lemma takeWhile_all: "\<forall>c \<in> set s. P c \<Longrightarrow> takeWhile P s = s"
  by (simp add: takeWhile_eq_all_conv)

lemma nat_toString_cases:
  "(\<exists>c. nat_toString n = [c] \<and> is_digit c) \<or>
   (\<exists>c d r. nat_toString n = c # d # r \<and> is_digit c \<and> is_digit d)"
proof -
  obtain c r where cr: "nat_toString n = c # r"
    using nat_toString_nonempty [of n] by (cases "nat_toString n") auto
  have dc: "is_digit c" using nat_toString_digits [of n] cr by simp
  show ?thesis
  proof (cases r)
    case Nil
    then show ?thesis using cr dc by simp
  next
    case (Cons d r')
    then have "is_digit d" using nat_toString_digits [of n] cr by simp
    then show ?thesis using cr dc Cons by simp
  qed
qed

lemma nat_toString_no_hex_prefix:
  "take 2 (nat_toString n) \<noteq> ''0x'' \<and> take 2 (nat_toString n) \<noteq> ''0X''"
  using nat_toString_cases [of n] by (auto simp: is_digit_def)

lemma parseInt_nat_toString: "parseInt (nat_toString n) = Num (int n)"
proof -
  obtain c r where cr: "nat_toString n = c # r" and dc: "is_digit c"
    using nat_toString_cases [of n] by auto
  have ws: "dropWhile is_ws (nat_toString n) = nat_toString n"
    using cr dc by (simp add: is_digit_not_ws)
  have sg: "strip_sign (nat_toString n) = (False, nat_toString n)"
    using cr dc by (auto simp: strip_sign_def is_digit_def)
  show ?thesis
    by (simp add: parseInt_def ws sg nat_toString_no_hex_prefix takeWhile_all
        nat_toString_digits nat_toString_nonempty nat_toString_value)
qed

lemma parseInt_neg_nat_toString: "parseInt (''-'' @ nat_toString n) = Num (- int n)"
proof -
  have sg: "strip_sign (dropWhile is_ws (''-'' @ nat_toString n)) = (True, nat_toString n)"
    by (simp add: strip_sign_def is_ws_def)
  show ?thesis
    by (simp only: parseInt_def sg)
       (simp add: nat_toString_no_hex_prefix takeWhile_all nat_toString_digits
          nat_toString_nonempty nat_toString_value)
qed

text \<open>Reading back a timestamp that was written with \<open>toString\<close> gives the timestamp.\<close>

lemma parseInt_int_toString: "parseInt (int_toString i) = Num i"
  using parseInt_nat_toString [of "nat i"] parseInt_neg_nat_toString [of "nat (- i)"]
  by (simp add: int_toString_def)

lemma int_toString_nonempty: "int_toString i \<noteq> []"
  by (simp add: int_toString_def nat_toString_nonempty)

section \<open>Facts about the store and the event log\<close>

lemma event_key_neq_stream_key: "event_key e \<noteq> stream_key s"
  by (simp add: event_key_def stream_key_def)

lemma stream_key_neq_event_key: "stream_key s \<noteq> event_key e"
  by (simp add: event_key_def stream_key_def)

lemma event_key_inj: "(event_key a = event_key b) = (a = b)"
  by (simp add: event_key_def)

lemma zinsert_last:
  "\<forall>z \<in> set zs. fst z < fst x \<Longrightarrow> zinsert x zs = zs @ [x]"
  by (induction zs) auto

lemma filter_other_members:
  "\<forall>z \<in> set zs. snd z \<noteq> e \<Longrightarrow> filter (\<lambda>z. snd z \<noteq> e) zs = zs"
  by (induction zs) auto

lemma storeEvent_effect:
  assumes ne: "no_zset_at S (event_key (generateEventId sid a r))"
    and nh: "no_hash_at S (stream_key sid)"
    and old: "\<forall>z \<in> set (zset_at S (stream_key sid)). fst z < b \<and> snd z \<noteq> generateEventId sid a r"
  shows "\<exists>S'. storeEvent stringify sid m a b r S = (Inr (generateEventId sid a r), S') \<and>
      zset_at S' (stream_key sid) = zset_at S (stream_key sid) @ [(b, generateEventId sid a r)] \<and>
      event_field S' (generateEventId sid a r) ''message'' = Some (stringify m) \<and>
      event_field S' (generateEventId sid a r) ''timestamp'' = Some (int_toString b) \<and>
      (\<forall>e. e \<noteq> generateEventId sid a r \<longrightarrow> vals S' (event_key e) = vals S (event_key e)) \<and>
      no_hash_at S' (stream_key sid)"
proof -
  let ?e = "generateEventId sid a r"
  let ?fs = "[(''streamId'', sid), (''message'', stringify m), (''timestamp'', int_toString b)]"
  obtain h0 where h0: "vals S (event_key ?e) = None \<and> h0 = Map.empty \<or> vals S (event_key ?e) = Some (Hash h0)"
    using ne unfolding no_zset_at_def
    by (auto split: option.splits rvalue.splits)
  let ?h = "h0(''streamId'' \<mapsto> sid, ''message'' \<mapsto> stringify m, ''timestamp'' \<mapsto> int_toString b)"
  let ?S1 = "S\<lparr>vals := (vals S)(event_key ?e \<mapsto> Hash ?h)\<rparr>"
  have hs: "hSet (event_key ?e) ?fs S = Inr ?S1"
    using h0 by (auto simp: hSet_def)
  define zs where "zs = zset_at S (stream_key sid)"
  let ?zs = zs
  have zcase: "vals S (stream_key sid) = None \<and> ?zs = [] \<or> vals S (stream_key sid) = Some (ZSet ?zs)"
    using nh unfolding no_hash_at_def zset_at_def zs_def
    by (auto split: option.splits rvalue.splits)
  let ?S2 = "?S1\<lparr>vals := (vals ?S1)(stream_key sid \<mapsto> ZSet (?zs @ [(b, ?e)]))\<rparr>"
  have ins: "zinsert (b, ?e) (filter (\<lambda>z. snd z \<noteq> ?e) ?zs) = ?zs @ [(b, ?e)]"
    using old unfolding zs_def by (simp add: filter_other_members zinsert_last)
  have za: "zAdd (stream_key sid) b ?e ?S1 = Inr ?S2"
    using zcase ins by (auto simp: zAdd_def stream_key_neq_event_key)
  let ?S3 = "expire (stream_key sid) (24 * 60 * 60) (expire (event_key ?e) (24 * 60 * 60) ?S2)"
  have res: "storeEvent stringify sid m a b r S = (Inr ?e, ?S3)"
    by (simp only: storeEvent_def Let_def hs za sum.case)
  have v3: "vals ?S3 = (vals S)(event_key ?e \<mapsto> Hash ?h, stream_key sid \<mapsto> ZSet (?zs @ [(b, ?e)]))"
    by (simp add: expire_def)
  have "zset_at ?S3 (stream_key sid) = ?zs @ [(b, ?e)]"
    by (simp only: zset_at_def v3) simp
  moreover have "event_field ?S3 ?e ''message'' = Some (stringify m)"
    by (simp only: event_field_def v3) (simp add: event_key_neq_stream_key)
  moreover have "event_field ?S3 ?e ''timestamp'' = Some (int_toString b)"
    by (simp only: event_field_def v3) (simp add: event_key_neq_stream_key)
  moreover have "\<forall>e. e \<noteq> ?e \<longrightarrow> vals ?S3 (event_key e) = vals S (event_key e)"
    by (simp only: v3) (simp add: event_key_neq_stream_key event_key_inj)
  moreover have "no_hash_at ?S3 (stream_key sid)"
    by (simp only: no_hash_at_def v3) simp
  ultimately show ?thesis using res unfolding zs_def by blast
qed


lemma storeEvents_effect:
  assumes "\<forall>x \<in> set ap. no_zset_at S (event_key (append_id sid x))"
    and "no_hash_at S (stream_key sid)"
    and "\<forall>z \<in> set (zset_at S (stream_key sid)). \<forall>x \<in> set ap.
            fst z < append_ts x \<and> snd z \<noteq> append_id sid x"
    and "sorted_wrt (<) (map append_ts ap)" and "distinct (map (append_id sid) ap)"
  shows "\<exists>S'. storeEvents stringify sid ap S = (Inr (map (append_id sid) ap), S') \<and>
      zset_at S' (stream_key sid)
        = zset_at S (stream_key sid) @ map (\<lambda>x. (append_ts x, append_id sid x)) ap \<and>
      (\<forall>x \<in> set ap.
          event_field S' (append_id sid x) ''message'' = Some (stringify (append_msg x)) \<and>
          event_field S' (append_id sid x) ''timestamp'' = Some (int_toString (append_ts x))) \<and>
      (\<forall>e. e \<notin> append_id sid ` set ap \<longrightarrow> vals S' (event_key e) = vals S (event_key e)) \<and>
      no_hash_at S' (stream_key sid)"
  using assms
proof (induction ap arbitrary: S)
  case Nil
  then show ?case by simp
next
  case (Cons x ap)
  obtain m a b r where x: "x = (m, a, b, r)" by (cases x) auto
  let ?e = "generateEventId sid a r"
  have xe: "append_id sid x = ?e" and xt: "append_ts x = b" and xm: "append_msg x = m"
    by (simp_all add: x append_id_def append_ts_def append_msg_def)
  have old: "\<forall>z \<in> set (zset_at S (stream_key sid)). fst z < b \<and> snd z \<noteq> ?e"
    using Cons.prems(3) xe xt by auto
  have nzx: "no_zset_at S (event_key ?e)"
    using Cons.prems(1) xe by auto
  obtain S1 where s1: "storeEvent stringify sid m a b r S = (Inr ?e, S1)"
    and z1: "zset_at S1 (stream_key sid) = zset_at S (stream_key sid) @ [(b, ?e)]"
    and f1: "event_field S1 ?e ''message'' = Some (stringify m)"
            "event_field S1 ?e ''timestamp'' = Some (int_toString b)"
    and o1: "\<forall>e. e \<noteq> ?e \<longrightarrow> vals S1 (event_key e) = vals S (event_key e)"
    and i1: "no_hash_at S1 (stream_key sid)"
    using storeEvent_effect [OF nzx Cons.prems(2) old, of stringify m] by blast
  have later: "\<forall>y \<in> set ap. b < append_ts y \<and> ?e \<noteq> append_id sid y"
    using Cons.prems(4) Cons.prems(5) xe xt by auto
  have old1: "\<forall>z \<in> set (zset_at S1 (stream_key sid)). \<forall>y \<in> set ap.
            fst z < append_ts y \<and> snd z \<noteq> append_id sid y"
    using Cons.prems(3) later by (auto simp: z1)
  have srt: "sorted_wrt (<) (map append_ts ap)" and dst: "distinct (map (append_id sid) ap)"
    using Cons.prems(4) Cons.prems(5) by simp_all
  have nz1: "\<forall>y \<in> set ap. no_zset_at S1 (event_key (append_id sid y))"
    using Cons.prems(1) o1 later by (auto simp: no_zset_at_def)
  obtain S2 where s2: "storeEvents stringify sid ap S1 = (Inr (map (append_id sid) ap), S2)"
    and z2: "zset_at S2 (stream_key sid)
        = zset_at S1 (stream_key sid) @ map (\<lambda>x. (append_ts x, append_id sid x)) ap"
    and f2: "\<forall>y \<in> set ap.
          event_field S2 (append_id sid y) ''message'' = Some (stringify (append_msg y)) \<and>
          event_field S2 (append_id sid y) ''timestamp'' = Some (int_toString (append_ts y))"
    and o2: "\<forall>e. e \<notin> append_id sid ` set ap \<longrightarrow> vals S2 (event_key e) = vals S1 (event_key e)"
    and i2: "no_hash_at S2 (stream_key sid)"
    using Cons.IH [OF nz1 i1 old1 srt dst] by blast
  have res: "storeEvents stringify sid (x # ap) S = (Inr (map (append_id sid) (x # ap)), S2)"
    by (simp add: x s1 s2) (simp add: append_id_def)
  have keep: "vals S2 (event_key ?e) = vals S1 (event_key ?e)"
    using o2 later by auto
  have fx: "event_field S2 ?e ''message'' = Some (stringify m)"
           "event_field S2 ?e ''timestamp'' = Some (int_toString b)"
    using f1 keep by (simp_all add: event_field_def)
  have zz: "zset_at S2 (stream_key sid)
        = zset_at S (stream_key sid) @ map (\<lambda>x. (append_ts x, append_id sid x)) (x # ap)"
    by (simp add: z2 z1 xe xt)
  have ff: "\<forall>y \<in> set (x # ap).
          event_field S2 (append_id sid y) ''message'' = Some (stringify (append_msg y)) \<and>
          event_field S2 (append_id sid y) ''timestamp'' = Some (int_toString (append_ts y))"
    using f2 fx by (simp add: xe xt xm)
  have oo: "\<forall>e. e \<notin> append_id sid ` set (x # ap) \<longrightarrow> vals S2 (event_key e) = vals S (event_key e)"
    using o1 o2 by (simp add: xe)
  show ?case using res zz ff oo i2 by blast
qed

lemma filter_after_sorted:
  "sorted_wrt (<) (map f xs) \<Longrightarrow> i < length xs \<Longrightarrow>
   filter (\<lambda>x. (f (xs ! i) :: int) < f x) xs = drop (Suc i) xs"
proof (induction xs arbitrary: i)
  case Nil
  then show ?case by simp
next
  case (Cons x xs)
  show ?case
  proof (cases i)
    case 0
    have "\<forall>y \<in> set xs. f x < f y" using Cons.prems(1) by simp
    then have "filter (\<lambda>y. f x < f y) xs = xs" by (simp add: filter_id_conv)
    then show ?thesis using 0 by simp
  next
    case (Suc j)
    have "j < length xs" using Cons.prems(2) Suc by simp
    then have "f x < f (xs ! j)" using Cons.prems(1) by simp
    then have "\<not> f (xs ! j) < f x" by simp
    moreover have "filter (\<lambda>y. f (xs ! j) < f y) xs = drop (Suc j) xs"
      using Cons.IH [of j] Cons.prems \<open>j < length xs\<close> by simp
    ultimately show ?thesis using Suc by simp
  qed
qed

lemma replay_loop_delivers_all:
  assumes "\<forall>x \<in> set xs.
      event_field S (eid x) ''message'' = Some (stringify (msg x)) \<and>
      stringify (msg x) \<noteq> [] \<and> parse (stringify (msg x)) = Some (msg x)"
  shows "replay_loop parse send S (map eid xs) k
           = (Inr (), foldl (\<lambda>k x. snd (send (eid x) (msg x) k)) k xs)"
  using assms
proof (induction xs arbitrary: k)
  case Nil
  then show ?case by simp
next
  case (Cons x xs)
  have ef: "event_field S (eid x) ''message'' = Some (stringify (msg x))"
    and ne: "stringify (msg x) \<noteq> []" and pa: "parse (stringify (msg x)) = Some (msg x)"
    using Cons.prems by simp_all
  obtain h where h: "vals S (event_key (eid x)) = Some (Hash h)" "h ''message'' = Some (stringify (msg x))"
    using ef by (auto simp: event_field_def split: option.splits rvalue.splits)
  have ga: "hGetAll (event_key (eid x)) S = Inr h" using h by (simp add: hGetAll_def)
  obtain st k' where sd: "send (eid x) (msg x) k = (st, k')" by (cases "send (eid x) (msg x) k") auto
  have ih: "replay_loop parse send S (map eid xs) k'
           = (Inr (), foldl (\<lambda>k x. snd (send (eid x) (msg x) k)) k' xs)"
    using Cons.IH [of k'] Cons.prems by simp
  show ?case
    by (cases st) (simp_all add: ga h ne pa sd ih)
qed


lemma generateEventId_nonempty: "generateEventId sid a r \<noteq> []"
  by (simp add: generateEventId_def)

lemma zRangeByScore_zset_at:
  "no_hash_at S key \<Longrightarrow>
   zRangeByScore key (Score (Num lo)) PosInf S
     = Inr (map snd (filter (\<lambda>z. lo \<le> fst z) (zset_at S key)))"
  unfolding no_hash_at_def zRangeByScore_def zset_at_def in_range_def
  by (auto split: option.splits rvalue.splits)

lemma replayEventsAfter_resolved:
  assumes "lastId \<noteq> []" and "getStreamIdFromEventId lastId = sid" and "sid \<noteq> []"
    and "event_field S lastId ''timestamp'' = Some (int_toString t)"
    and "no_hash_at S (stream_key sid)"
  shows "replayEventsAfter parse lastId send k S =
     (case replay_loop parse send S
             (map snd (filter (\<lambda>z. t + 1 \<le> fst z) (zset_at S (stream_key sid)))) k of
        (Inl e, k') \<Rightarrow> (Inl e, k')
      | (Inr u, k') \<Rightarrow> (Inr sid, k'))"
proof -
  obtain h where h: "vals S (event_key lastId) = Some (Hash h)" "h ''timestamp'' = Some (int_toString t)"
    using assms(4) by (auto simp: event_field_def split: option.splits rvalue.splits)
  have ga: "hGetAll (event_key lastId) S = Inr h" using h by (simp add: hGetAll_def)
  show ?thesis
    using assms(1,2,3)
    by (simp add: replayEventsAfter_def Let_def ga h int_toString_nonempty parseInt_int_toString
        zRangeByScore_zset_at [OF assms(5)])
qed

lemma vals_del_events:
  "vals (del_events es S) k = (if k \<in> event_key ` set es then None else vals S k)"
  by (induction es arbitrary: S) (auto simp: del_def)

lemma in_range_upto: "in_range NegInf (Score (Num c)) = (\<lambda>z. fst z \<le> c)"
  by (rule ext) (simp add: in_range_def)

lemma in_range_all: "in_range NegInf PosInf = (\<lambda>z. True)"
  by (rule ext) (simp add: in_range_def)

lemma not_le_fst: "(\<lambda>z. \<not> fst z \<le> (c::int)) = (\<lambda>z. c < fst z)"
  by (rule ext) auto


lemma cleanupOldEvents_no_index:
  assumes "vals S (stream_key sid) = None"
  shows "cleanupOldEvents sid olderThanMs now S = (Inr (), S)"
  using assms by (simp add: cleanupOldEvents_def zRangeByScore_def zRemRangeByScore_def Let_def)

lemma cleanupOldEvents_with_index:
  assumes "vals S (stream_key sid) = Some (ZSet zs)"
  shows "fst (cleanupOldEvents sid olderThanMs now S) = Inr () \<and>
    (\<forall>z \<in> set zs. fst z \<le> now - olderThanMs \<longrightarrow>
        vals (snd (cleanupOldEvents sid olderThanMs now S)) (event_key (snd z)) = None \<and>
        replayEventsAfter parse (snd z) send k (snd (cleanupOldEvents sid olderThanMs now S)) = (Inr [], k)) \<and>
    zRangeByScore (stream_key sid) NegInf PosInf (snd (cleanupOldEvents sid olderThanMs now S))
      = Inr (map snd (filter (\<lambda>z. now - olderThanMs < fst z) zs)) \<and>
    (\<forall>e. e \<notin> snd ` {z \<in> set zs. fst z \<le> now - olderThanMs} \<longrightarrow>
        vals (snd (cleanupOldEvents sid olderThanMs now S)) (event_key e) = vals S (event_key e))"
proof -
  let ?c = "now - olderThanMs"
  let ?old = "map snd (filter (\<lambda>z. fst z \<le> ?c) zs)"
  let ?S1 = "del_events ?old S"
  let ?kept = "filter (\<lambda>z. ?c < fst z) zs"
  let ?S2 = "if ?kept = [] then del (stream_key sid) ?S1
             else ?S1\<lparr>vals := (vals ?S1)(stream_key sid \<mapsto> ZSet ?kept)\<rparr>"
  have range: "zRangeByScore (stream_key sid) NegInf (Score (Num ?c)) S = Inr ?old"
    using assms by (simp add: zRangeByScore_def in_range_upto)
  have s1: "vals ?S1 (stream_key sid) = Some (ZSet zs)"
    using assms by (auto simp: vals_del_events stream_key_neq_event_key)
  have rem: "zRemRangeByScore (stream_key sid) NegInf (Score (Num ?c)) ?S1 = Inr ?S2"
    using s1 by (simp add: zRemRangeByScore_def Let_def in_range_upto not_le_fst)
  have res: "cleanupOldEvents sid olderThanMs now S = (Inr (), ?S2)"
    by (simp only: cleanupOldEvents_def Let_def range rem sum.case)
  have ev: "vals ?S2 (event_key e) = (if e \<in> set ?old then None else vals S (event_key e))" for e
    by (force simp: vals_del_events del_def event_key_inj event_key_neq_stream_key)
  have keptv: "vals ?S2 (stream_key sid) = (if ?kept = [] then None else Some (ZSet ?kept))"
    by (simp add: del_def)
  have c1: "fst (cleanupOldEvents sid olderThanMs now S) = Inr ()"
    by (simp add: res)
  have c2: "vals ?S2 (event_key (snd z)) = None \<and> replayEventsAfter parse (snd z) send k ?S2 = (Inr [], k)"
    if "z \<in> set zs" "fst z \<le> ?c" for z
  proof -
    have "snd z \<in> set ?old" using that by auto
    then have "vals ?S2 (event_key (snd z)) = None" by (simp only: ev if_True)
    then show ?thesis by (auto simp: replayEventsAfter_def hGetAll_def Let_def)
  qed
  have c3: "zRangeByScore (stream_key sid) NegInf PosInf ?S2 = Inr (map snd ?kept)"
    by (simp add: zRangeByScore_def keptv in_range_all)
  have c4: "vals ?S2 (event_key e) = vals S (event_key e)"
    if "e \<notin> snd ` {z \<in> set zs. fst z \<le> ?c}" for e
  proof -
    have "e \<notin> set ?old" using that by auto
    then show ?thesis by (simp only: ev if_False)
  qed
  show ?thesis
    using c1 c2 c3 c4 by (simp only: res snd_conv) blast
qed


lemma int_toString_100: "int_toString 100 = ''100''"
  by (simp add: int_toString_def nat_toString.simps digit_char_def)

lemma int_toString_150: "int_toString 150 = ''150''"
  by (simp add: int_toString_def nat_toString.simps digit_char_def)

lemma parseInt_100: "parseInt ''100'' = Num 100"
  using parseInt_int_toString [of 100] by (simp add: int_toString_100)

lemmas store_ops = storeEvent_def generateEventId_def hSet_def zAdd_def expire_def event_key_def
  stream_key_def fresh_store_def Let_def

lemma vals_scenario_store:
  "vals scenario_store =
     [event_key ''s1_100_aaaaaaaa'' \<mapsto>
        Hash [''streamId'' \<mapsto> ''s1'', ''message'' \<mapsto> ''m1'', ''timestamp'' \<mapsto> ''100''],
      stream_key ''s1'' \<mapsto> ZSet [(100, ''s1_100_aaaaaaaa''), (150, ''s1_150_bbbbbbbb'')],
      event_key ''s1_150_bbbbbbbb'' \<mapsto>
        Hash [''streamId'' \<mapsto> ''s1'', ''message'' \<mapsto> ''m2'', ''timestamp'' \<mapsto> ''150'']]"
  by (simp add: scenario_store_def scenario_appends_def store_ops int_toString_100 int_toString_150)
     (auto simp: fun_eq_iff)

lemma readable_events_append:
  "readable_events parse S (xs @ ys) = readable_events parse S xs @ readable_events parse S ys"
  by (induction xs) (auto split: option.splits)

lemma replay_loop_readable:
  assumes "\<forall>x \<in> set ids. no_zset_at S (event_key x)"
  shows "replay_loop parse send S ids k
           = (Inr (), foldl (\<lambda>k p. snd (send (fst p) (snd p) k)) k (readable_events parse S ids))"
  using assms
proof (induction ids arbitrary: k)
  case Nil
  then show ?case by simp
next
  case (Cons x ids)
  have nz: "no_zset_at S (event_key x)" using Cons.prems by simp
  have ih: "replay_loop parse send S ids k'
           = (Inr (), foldl (\<lambda>k p. snd (send (fst p) (snd p) k)) k' (readable_events parse S ids))"
    for k'
    using Cons.IH [of k'] Cons.prems by simp
  show ?case
  proof (cases "vals S (event_key x)")
    case None
    then show ?thesis by (simp add: hGetAll_def event_field_def ih)
  next
    case (Some v)
    then obtain h where h: "vals S (event_key x) = Some (Hash h)"
      using nz by (cases v) (auto simp: no_zset_at_def)
    show ?thesis
      by (auto simp: hGetAll_def event_field_def h ih split: option.splits settled.splits prod.splits)
  qed
qed

lemma replayEventsAfter_cursor:
  assumes "lastId \<noteq> []" and "getStreamIdFromEventId lastId = sid" and "sid \<noteq> []"
    and "event_field S lastId ''timestamp'' = Some ts" and "ts \<noteq> []" and "parseInt ts = Num t"
    and "no_hash_at S (stream_key sid)"
  shows "replayEventsAfter parse lastId send k S =
     (case replay_loop parse send S
             (map snd (filter (\<lambda>z. t + 1 \<le> fst z) (zset_at S (stream_key sid)))) k of
        (Inl e, k') \<Rightarrow> (Inl e, k')
      | (Inr u, k') \<Rightarrow> (Inr sid, k'))"
proof -
  obtain h where h: "vals S (event_key lastId) = Some (Hash h)" "h ''timestamp'' = Some ts"
    using assms(4) by (auto simp: event_field_def split: option.splits rvalue.splits)
  have ga: "hGetAll (event_key lastId) S = Inr h" using h by (simp add: hGetAll_def)
  show ?thesis
    using assms(1,2,3,5,6)
    by (simp add: replayEventsAfter_def Let_def ga h zRangeByScore_zset_at [OF assms(7)])
qed

lemma int_toString_1: "int_toString 1 = ''1''"
  by (simp add: int_toString_def nat_toString.simps digit_char_def)

lemma parseInt_1: "parseInt ''1'' = Num 1"
  using parseInt_int_toString [of 1] by (simp add: int_toString_1)

section \<open>Event identifiers\<close>

text \<open>
  C3. The claim: for every stream identifier, parsing the event identifier that
  \<open>generateEventId\<close> builds recovers that stream identifier. The parser cuts at the first
  underscore, so it recovers the stream only when the stream identifier has none
  (\<open>getStreamId_generate\<close>). For the stream \<open>user_42\<close> the identifier built is
  \<open>user_42_1700000000000_k3x9a0bz\<close> and the stream parsed out of it is \<open>user\<close>;
  for a stream identifier that begins with an underscore it is the empty string.
\<close>

theorem generated_id_with_underscore_parses_to_prefix:
  "generateEventId ''user_42'' 1700000000000 ''k3x9a0bz'' = ''user_42_1700000000000_k3x9a0bz'' \<and>
   getStreamIdFromEventId (generateEventId ''user_42'' 1700000000000 ''k3x9a0bz'') = ''user'' \<and>
   getStreamIdFromEventId (generateEventId ''user_42'' 1700000000000 ''k3x9a0bz'') \<noteq> ''user_42'' \<and>
   getStreamIdFromEventId (generateEventId ''_GET_stream'' 1700000000000 ''k3x9a0bz'') = []"
  by (simp add: getStreamId_takeWhile generateEventId_def int_toString_def nat_toString.simps
      digit_char_def)

section \<open>Replay: soft failure and skipped events\<close>

text \<open>
  C5. When the cursor is the empty string, or no stream identifier can be parsed out of
  it, or its key in the store is absent or holds a record without a (non-empty)
  timestamp, \<open>replayEventsAfter\<close> returns the empty string, raises nothing, and leaves
  the sink as it was, whatever the sink is: nothing is delivered.
\<close>

theorem replayEventsAfter_fails_soft:
  "lastId = [] \<or> getStreamIdFromEventId lastId = [] \<or>
   vals S (event_key lastId) = None \<or>
   (\<exists>h. vals S (event_key lastId) = Some (Hash h) \<and>
        (h ''timestamp'' = None \<or> h ''timestamp'' = Some []))
   \<Longrightarrow> replayEventsAfter parse lastId send k S = (Inr [], k)"
  by (auto simp: replayEventsAfter_def hGetAll_def Let_def)

theorem replayEventsAfter_fails_soft_witness:
  "vals fresh_store (event_key ''s1_100_abcdefgh'') = None \<and>
   replayEventsAfter Some ''s1_100_abcdefgh'' recording_sink [] fresh_store = (Inr [], []) \<and>
   replayEventsAfter Some [] recording_sink [] fresh_store = (Inr [], []) \<and>
   getStreamIdFromEventId ''_100_abcdefgh'' = [] \<and>
   replayEventsAfter Some ''_100_abcdefgh'' recording_sink [] fresh_store = (Inr [], [])"
  using replayEventsAfter_fails_soft [of "''s1_100_abcdefgh''" fresh_store Some recording_sink "[]"]
    replayEventsAfter_fails_soft [of "[]" fresh_store Some recording_sink "[]"]
    replayEventsAfter_fails_soft [of "''_100_abcdefgh''" fresh_store Some recording_sink "[]"]
  by (simp add: fresh_store_def getStreamId_takeWhile)

text \<open>
  C10. Let the cursor resolve: it is not empty, a non-empty stream identifier is parsed
  out of it, its record has a non-empty timestamp that reads as the number \<open>t\<close>, and
  the key of the stream holds no hash. Let the index entries with a score of at least
  \<open>t + 1\<close>, which the replay queries, be \<open>pre\<close>, then \<open>e\<close>, then \<open>post\<close>, where the
  record of \<open>e\<close> is absent from the store, or has no (non-empty) payload, or has a
  payload that fails to parse, and no key of the other events holds a sorted set. Then
  \<open>replayEventsAfter\<close> raises nothing and returns the stream identifier, and what it
  sends to the sink is exactly the readable events of \<open>pre\<close> followed by the readable
  events of \<open>post\<close>, each with its message, in order: nothing is sent for \<open>e\<close>, and the
  replay goes on with the events after it.
\<close>

theorem replayEventsAfter_skips_unreadable_event:
  assumes "lastId \<noteq> []" and "getStreamIdFromEventId lastId = sid" and "sid \<noteq> []"
    and "event_field S lastId ''timestamp'' = Some ts" and "ts \<noteq> []" and "parseInt ts = Num t"
    and "no_hash_at S (stream_key sid)"
    and "map snd (filter (\<lambda>z. t + 1 \<le> fst z) (zset_at S (stream_key sid))) = pre @ e # post"
    and "vals S (event_key e) = None \<or>
         (\<exists>h. vals S (event_key e) = Some (Hash h) \<and>
              (h ''message'' = None \<or> h ''message'' = Some [] \<or>
               (\<exists>txt. h ''message'' = Some txt \<and> parse txt = None)))"
    and "\<forall>x \<in> set (pre @ post). no_zset_at S (event_key x)"
  shows "zRangeByScore (stream_key sid) (Score (Num (t + 1))) PosInf S = Inr (pre @ e # post) \<and>
     replayEventsAfter parse lastId send k S
       = (Inr sid, foldl (\<lambda>k p. snd (send (fst p) (snd p) k)) k
                     (readable_events parse S pre @ readable_events parse S post))"
proof -
  have nze: "no_zset_at S (event_key e)"
    using assms(9) by (auto simp: no_zset_at_def)
  have re: "readable_events parse S [e] = []"
    using assms(9) by (auto simp: event_field_def)
  have all: "\<forall>x \<in> set (pre @ e # post). no_zset_at S (event_key x)"
    using assms(10) nze by auto
  have rd: "readable_events parse S (pre @ e # post)
              = readable_events parse S pre @ readable_events parse S post"
    using readable_events_append [of parse S pre "[e] @ post"]
      readable_events_append [of parse S "[e]" post] re
    by simp
  have loop: "replay_loop parse send S (pre @ e # post) k
           = (Inr (), foldl (\<lambda>k p. snd (send (fst p) (snd p) k)) k
                        (readable_events parse S pre @ readable_events parse S post))"
    using replay_loop_readable [OF all, of parse send k] by (simp only: rd)
  have rng: "zRangeByScore (stream_key sid) (Score (Num (t + 1))) PosInf S = Inr (pre @ e # post)"
    by (simp only: zRangeByScore_zset_at [OF assms(7)] assms(8))
  have rep: "replayEventsAfter parse lastId send k S
       = (Inr sid, foldl (\<lambda>k p. snd (send (fst p) (snd p) k)) k
                     (readable_events parse S pre @ readable_events parse S post))"
    by (simp only: replayEventsAfter_cursor [OF assms(1-7)] assms(8) loop prod.case sum.case)
  show ?thesis using rng rep by simp
qed

theorem replayEventsAfter_skips_unreadable_event_witness:
  "''s_1_a'' \<noteq> [] \<and> getStreamIdFromEventId ''s_1_a'' = ''s'' \<and> ''s'' \<noteq> [] \<and>
   event_field gap_store ''s_1_a'' ''timestamp'' = Some ''1'' \<and> ''1'' \<noteq> [] \<and>
   parseInt ''1'' = Num 1 \<and> no_hash_at gap_store (stream_key ''s'') \<and>
   map snd (filter (\<lambda>z. 1 + 1 \<le> fst z) (zset_at gap_store (stream_key ''s'')))
     = [''s_2_b''] @ ''s_3_c'' # [''s_4_d''] \<and>
   vals gap_store (event_key ''s_3_c'') = None \<and>
   no_zset_at gap_store (event_key ''s_2_b'') \<and> no_zset_at gap_store (event_key ''s_4_d'') \<and>
   readable_events Some gap_store [''s_2_b''] = [(''s_2_b'', ''m2'')] \<and>
   readable_events Some gap_store [''s_4_d''] = [(''s_4_d'', ''m4'')] \<and>
   replayEventsAfter Some ''s_1_a'' recording_sink [] gap_store
     = (Inr ''s'', [(''s_2_b'', ''m2''), (''s_4_d'', ''m4'')])"
proof -
  have h2: "getStreamIdFromEventId ''s_1_a'' = ''s''" by (simp add: getStreamId_takeWhile)
  have h4: "event_field gap_store ''s_1_a'' ''timestamp'' = Some ''1''"
    by (simp add: event_field_def gap_store_def event_key_def stream_key_def)
  have h7: "no_hash_at gap_store (stream_key ''s'')"
    by (simp add: no_hash_at_def gap_store_def event_key_def stream_key_def)
  have h8: "map snd (filter (\<lambda>z. 1 + 1 \<le> fst z) (zset_at gap_store (stream_key ''s'')))
     = [''s_2_b''] @ ''s_3_c'' # [''s_4_d'']"
    by (simp add: zset_at_def gap_store_def event_key_def stream_key_def)
  have h9: "vals gap_store (event_key ''s_3_c'') = None"
    by (simp add: gap_store_def event_key_def stream_key_def)
  have nzb: "no_zset_at gap_store (event_key ''s_2_b'')"
    and nzd: "no_zset_at gap_store (event_key ''s_4_d'')"
    by (simp_all add: no_zset_at_def gap_store_def event_key_def stream_key_def)
  have h10: "\<forall>x \<in> set ([''s_2_b''] @ [''s_4_d'']). no_zset_at gap_store (event_key x)"
    using nzb nzd by simp
  have rb: "readable_events Some gap_store [''s_2_b''] = [(''s_2_b'', ''m2'')]"
    and rd: "readable_events Some gap_store [''s_4_d''] = [(''s_4_d'', ''m4'')]"
    by (simp_all add: event_field_def gap_store_def event_key_def stream_key_def)
  have n1: "''s_1_a'' \<noteq> []" and n3: "''s'' \<noteq> []" and n5: "''1'' \<noteq> []" by simp_all
  have h9': "vals gap_store (event_key ''s_3_c'') = None \<or>
         (\<exists>h. vals gap_store (event_key ''s_3_c'') = Some (Hash h) \<and>
              (h ''message'' = None \<or> h ''message'' = Some [] \<or>
               (\<exists>txt. h ''message'' = Some txt \<and> Some txt = None)))"
    using h9 by simp
  note T = replayEventsAfter_skips_unreadable_event [where lastId = "''s_1_a''" and sid = "''s''"
        and S = gap_store and ts = "''1''" and t = 1 and pre = "[''s_2_b'']" and e = "''s_3_c''"
        and post = "[''s_4_d'']" and parse = Some and send = recording_sink and k = "[]",
        OF n1 h2 n3 h4 n5 parseInt_1 h7 h8 h9' h10, THEN conjunct2]
  have "replayEventsAfter Some ''s_1_a'' recording_sink [] gap_store
     = (Inr ''s'', [(''s_2_b'', ''m2''), (''s_4_d'', ''m4'')])"
    using T unfolding rb rd by (simp add: recording_sink_def)
  then show ?thesis
    using h2 h4 parseInt_1 h7 h8 h9 nzb nzd rb rd by simp
qed

section \<open>Reading and removing session records\<close>

text \<open>
  C8. When the record of a session holds a sub-state blob that fails to decode,
  \<open>getSession\<close> raises nothing and returns the metadata of the record, decoded from the
  other fields, with the sub-state absent.
\<close>

theorem getSession_malformed_blob:
  assumes "vals S (session_key sid) = Some (Hash data)"
    and "data ''sessionId'' = Some v" and "v \<noteq> []"
    and "data ''sseState'' = Some blob" and "parse blob = None"
  shows "getSession parse sid S =
           Inr (Some \<lparr>sessionId = Some v, transportType = data ''transportType'',
                       createdAt = parseInt_property (data ''createdAt''),
                       lastActive = parseInt_property (data ''lastActive''),
                       sseState = None\<rparr>)
         \<and> sseState (deserializeMetadata parse data) = None"
  using assms by (simp add: getSession_def hGetAll_def deserializeMetadata_def Let_def)

theorem getSession_malformed_blob_witness:
  "sse_parse ''{oops'' = None \<and>
   getSession sse_parse ''abc''
     \<lparr>vals = [session_key ''abc'' \<mapsto>
        Hash [''sessionId'' \<mapsto> ''abc'', ''transportType'' \<mapsto> ''sse'', ''createdAt'' \<mapsto> ''5'',
              ''lastActive'' \<mapsto> ''7'', ''sseState'' \<mapsto> ''{oops'']], ttl = Map.empty\<rparr>
   = Inr (Some \<lparr>sessionId = Some ''abc'', transportType = Some ''sse'',
                 createdAt = parseInt_property (Some ''5''), lastActive = parseInt_property (Some ''7''),
                 sseState = None\<rparr>)"
  using getSession_malformed_blob
    [of "\<lparr>vals = [session_key ''abc'' \<mapsto>
        Hash [''sessionId'' \<mapsto> ''abc'', ''transportType'' \<mapsto> ''sse'', ''createdAt'' \<mapsto> ''5'',
              ''lastActive'' \<mapsto> ''7'', ''sseState'' \<mapsto> ''{oops'']], ttl = Map.empty\<rparr>"
        "''abc''"
        "[''sessionId'' \<mapsto> ''abc'', ''transportType'' \<mapsto> ''sse'', ''createdAt'' \<mapsto> ''5'',
              ''lastActive'' \<mapsto> ''7'', ''sseState'' \<mapsto> ''{oops'']"
        "''abc''" "''{oops''" sse_parse]
  by (simp add: sse_parse_def sse_text_def)

text \<open>
  C9. \<open>removeSession\<close> cannot fail; called a second time it leaves the store and the
  local cache exactly as the first call left them, and after the first call (hence after
  either) \<open>sessionExists\<close> is false.
\<close>

theorem removeSession_idempotent:
  "removeSession sid (fst (removeSession sid S N)) (snd (removeSession sid S N))
     = removeSession sid S N
   \<and> sessionExists sid (fst (removeSession sid S N)) = False
   \<and> getLocalTransport sid (snd (removeSession sid S N)) = None"
  by (simp add: removeSession_def del_def sessionExists_def exists_def getLocalTransport_def)

section \<open>Replay after an append\<close>

text \<open>
  C1 as stated fails: two appends to the stream \<open>s1\<close> within the same millisecond get
  the same score, and the replay after the first one, which asks for scores of at least
  the cursor's timestamp plus one, delivers nothing where the claim promises the second
  message.
\<close>

theorem replay_misses_same_ms_append:
  "fst (storeEvents id ''s1'' same_ms_appends fresh_store)
     = Inr [''s1_100_aaaaaaaa'', ''s1_100_bbbbbbbb''] \<and>
   replayEventsAfter Some ''s1_100_aaaaaaaa'' recording_sink []
       (snd (storeEvents id ''s1'' same_ms_appends fresh_store)) = (Inr ''s1'', [])"
  by (simp add: same_ms_appends_def store_ops int_toString_100 parseInt_100
      replayEventsAfter_def getStreamId_takeWhile hGetAll_def zRangeByScore_def in_range_def)

text \<open>
  C1, amended. Let the stream identifier be non-empty and free of underscores, let the
  stream have no index yet and no key of an event to come hold a sorted set, and
  let a sequence of messages be appended with strictly increasing timestamps and
  pairwise distinct identifiers, each message surviving \<open>JSON.stringify\<close> then
  \<open>JSON.parse\<close>. Then every append succeeds, and for each position \<open>i\<close> the replay
  after the identifier of the \<open>i\<close>-th append queries the index for the scores of at
  least that append's timestamp plus one, which yields exactly the identifiers of the
  later appends in order, sends exactly those identifiers with their messages to the
  sink, in that order, and returns the stream identifier.
\<close>

theorem replay_after_kth_append:
  assumes "sid \<noteq> []" and "CHR ''_'' \<notin> set sid"
    and "vals S (stream_key sid) = None"
    and "\<forall>x \<in> set ap. no_zset_at S (event_key (append_id sid x))"
    and "sorted_wrt (<) (map append_ts ap)"
    and "distinct (map (append_id sid) ap)"
    and "\<forall>x \<in> set ap. stringify (append_msg x) \<noteq> [] \<and>
                        parse (stringify (append_msg x)) = Some (append_msg x)"
    and "i < length ap"
  shows "fst (storeEvents stringify sid ap S) = Inr (map (append_id sid) ap) \<and>
     zRangeByScore (stream_key sid) (Score (Num (append_ts (ap ! i) + 1))) PosInf
         (snd (storeEvents stringify sid ap S))
       = Inr (map (append_id sid) (drop (Suc i) ap)) \<and>
     replayEventsAfter parse (append_id sid (ap ! i)) send k (snd (storeEvents stringify sid ap S))
       = (Inr sid, foldl (\<lambda>k x. snd (send (append_id sid x) (append_msg x) k)) k (drop (Suc i) ap))"
proof -
  have nh: "no_hash_at S (stream_key sid)" and z0: "zset_at S (stream_key sid) = []"
    using assms(3) by (simp_all add: no_hash_at_def zset_at_def)
  have old: "\<forall>z \<in> set (zset_at S (stream_key sid)). \<forall>x \<in> set ap.
            fst z < append_ts x \<and> snd z \<noteq> append_id sid x"
    by (simp add: z0)
  obtain S' where res: "storeEvents stringify sid ap S = (Inr (map (append_id sid) ap), S')"
    and zs: "zset_at S' (stream_key sid) = map (\<lambda>x. (append_ts x, append_id sid x)) ap"
    and fs: "\<forall>x \<in> set ap.
          event_field S' (append_id sid x) ''message'' = Some (stringify (append_msg x)) \<and>
          event_field S' (append_id sid x) ''timestamp'' = Some (int_toString (append_ts x))"
    and nh': "no_hash_at S' (stream_key sid)"
    using storeEvents_effect [OF assms(4) nh old assms(5) assms(6), of stringify] z0 by auto
  let ?x = "ap ! i"
  have xin: "?x \<in> set ap" using assms(8) by simp
  have sel: "map snd (filter (\<lambda>z. append_ts ?x + 1 \<le> fst z) (zset_at S' (stream_key sid)))
        = map (append_id sid) (drop (Suc i) ap)"
  proof -
    have "filter (\<lambda>x. append_ts ?x + 1 \<le> append_ts x) ap = filter (\<lambda>x. append_ts ?x < append_ts x) ap"
      by (rule filter_cong) auto
    also have "\<dots> = drop (Suc i) ap"
      using filter_after_sorted [OF assms(5) assms(8)] .
    finally show ?thesis by (simp add: zs filter_map comp_def)
  qed
  have rng: "zRangeByScore (stream_key sid) (Score (Num (append_ts ?x + 1))) PosInf S'
       = Inr (map (append_id sid) (drop (Suc i) ap))"
    by (simp add: zRangeByScore_zset_at [OF nh'] sel)
  have good: "\<forall>x \<in> set (drop (Suc i) ap).
      event_field S' (append_id sid x) ''message'' = Some (stringify (append_msg x)) \<and>
      stringify (append_msg x) \<noteq> [] \<and> parse (stringify (append_msg x)) = Some (append_msg x)"
    using fs assms(7) by (auto dest: in_set_dropD)
  have loop: "replay_loop parse send S' (map (append_id sid) (drop (Suc i) ap)) k
           = (Inr (), foldl (\<lambda>k x. snd (send (append_id sid x) (append_msg x) k)) k (drop (Suc i) ap))"
    using replay_loop_delivers_all [OF good] .
  have sidp: "getStreamIdFromEventId (append_id sid ?x) = sid"
    by (simp add: append_id_def getStreamId_generate [OF assms(2)])
  have ts: "event_field S' (append_id sid ?x) ''timestamp'' = Some (int_toString (append_ts ?x))"
    using fs xin by simp
  have ne: "append_id sid ?x \<noteq> []" by (simp add: append_id_def generateEventId_nonempty)
  have rep: "replayEventsAfter parse (append_id sid ?x) send k S'
       = (Inr sid, foldl (\<lambda>k x. snd (send (append_id sid x) (append_msg x) k)) k (drop (Suc i) ap))"
    by (simp add: replayEventsAfter_resolved [OF ne sidp assms(1) ts nh'] sel loop)
  show ?thesis using res rng rep by simp
qed


theorem replay_after_kth_append_witness:
  "''s1'' \<noteq> [] \<and> CHR ''_'' \<notin> set ''s1'' \<and> vals fresh_store (stream_key ''s1'') = None \<and>
   no_zset_at fresh_store (event_key ''s1_100_aaaaaaaa'') \<and>
   no_zset_at fresh_store (event_key ''s1_150_bbbbbbbb'') \<and>
   sorted_wrt (<) (map append_ts scenario_appends) \<and>
   distinct (map (append_id ''s1'') scenario_appends) \<and>
   id ''m1'' \<noteq> [] \<and> Some (id ''m1'') = Some ''m1'' \<and> id ''m2'' \<noteq> [] \<and> Some (id ''m2'') = Some ''m2'' \<and>
   map append_msg scenario_appends = [''m1'', ''m2''] \<and>
   0 < length scenario_appends \<and>
   fst (storeEvents id ''s1'' scenario_appends fresh_store) = Inr [''s1_100_aaaaaaaa'', ''s1_150_bbbbbbbb''] \<and>
   replayEventsAfter Some ''s1_100_aaaaaaaa'' recording_sink [] scenario_store
     = (Inr ''s1'', [(''s1_150_bbbbbbbb'', ''m2'')])"
proof -
  have h3: "vals fresh_store (stream_key ''s1'') = None" by (simp add: fresh_store_def)
  have h4: "\<forall>x \<in> set scenario_appends. no_zset_at fresh_store (event_key (append_id ''s1'' x))"
    by (simp add: no_zset_at_def fresh_store_def)
  have h4': "no_zset_at fresh_store (event_key ''s1_100_aaaaaaaa'') \<and>
             no_zset_at fresh_store (event_key ''s1_150_bbbbbbbb'')"
    by (simp add: no_zset_at_def fresh_store_def)
  have h5: "sorted_wrt (<) (map append_ts scenario_appends)"
    by (simp add: scenario_appends_def append_ts_def)
  have ids: "map (append_id ''s1'') scenario_appends = [''s1_100_aaaaaaaa'', ''s1_150_bbbbbbbb'']"
    by (simp add: scenario_appends_def append_id_def generateEventId_def int_toString_100 int_toString_150)
  have h6: "distinct (map (append_id ''s1'') scenario_appends)" by (simp add: ids)
  have h7: "\<forall>x \<in> set scenario_appends. id (append_msg x) \<noteq> [] \<and> Some (id (append_msg x)) = Some (append_msg x)"
    by (simp add: scenario_appends_def append_msg_def)
  have h8: "0 < length scenario_appends" by (simp add: scenario_appends_def)
  have later: "drop (Suc 0) scenario_appends = [(''m2'', 150, 150, ''bbbbbbbb'')]"
    by (simp add: scenario_appends_def)
  have first: "append_id ''s1'' (scenario_appends ! 0) = ''s1_100_aaaaaaaa''"
    by (simp add: scenario_appends_def append_id_def generateEventId_def int_toString_100)
  have sent: "foldl (\<lambda>k x. snd (recording_sink (append_id ''s1'' x) (append_msg x) k)) []
                 (drop (Suc 0) scenario_appends) = [(''s1_150_bbbbbbbb'', ''m2'')]"
    by (simp add: later recording_sink_def append_id_def append_msg_def generateEventId_def
        int_toString_150)
  have "replayEventsAfter Some ''s1_100_aaaaaaaa'' recording_sink [] scenario_store
           = (Inr ''s1'', [(''s1_150_bbbbbbbb'', ''m2'')])
        \<and> fst (storeEvents id ''s1'' scenario_appends fresh_store)
           = Inr [''s1_100_aaaaaaaa'', ''s1_150_bbbbbbbb'']"
    using replay_after_kth_append [of "''s1''" fresh_store scenario_appends id Some 0 recording_sink "[]",
        OF _ _ h3 h4 h5 h6 h7 h8]
    by (simp only: ids first sent scenario_store_def) simp
  moreover have "map append_msg scenario_appends = [''m1'', ''m2'']"
    by (simp add: scenario_appends_def append_msg_def)
  ultimately show ?thesis
    using h3 h4' h5 h6 h8 by simp
qed

section \<open>Pruning\<close>

text \<open>
  C4 as stated fails at the boundary: in the scenario, pruning with the cutoff
  \<open>220 - 120 = 100\<close> deletes the event whose timestamp is 100, which is not strictly
  older than the cutoff, from the store and from the index.
\<close>

theorem cleanupOldEvents_deletes_event_at_cutoff:
  "\<not> (100::int) < 220 - 120 \<and>
   event_field scenario_store ''s1_100_aaaaaaaa'' ''timestamp'' = Some ''100'' \<and>
   zRangeByScore (stream_key ''s1'') NegInf PosInf scenario_store
     = Inr [''s1_100_aaaaaaaa'', ''s1_150_bbbbbbbb''] \<and>
   vals (snd (cleanupOldEvents ''s1'' 120 220 scenario_store)) (event_key ''s1_100_aaaaaaaa'') = None \<and>
   zRangeByScore (stream_key ''s1'') NegInf PosInf (snd (cleanupOldEvents ''s1'' 120 220 scenario_store))
     = Inr [''s1_150_bbbbbbbb'']"
  by (simp add: event_field_def vals_scenario_store cleanupOldEvents_def zRangeByScore_def
      in_range_def zRemRangeByScore_def del_def event_key_def stream_key_def Let_def)

text \<open>
  C4, amended. For every stream (its key holding a sorted set or nothing),
  \<open>cleanupOldEvents\<close> raises nothing; with the cutoff \<open>now - olderThanMs\<close> it
  deletes the record of every event of the index whose score is at most the cutoff,
  after which a replay from such an event returns the empty string and delivers nothing;
  the index keeps, in order, exactly the entries whose score is greater than the cutoff;
  and the record of every event that is not among those deleted is as it was.
\<close>

theorem cleanupOldEvents_inclusive_cutoff:
  assumes "no_hash_at S (stream_key sid)"
  shows "fst (cleanupOldEvents sid olderThanMs now S) = Inr () \<and>
    (\<forall>z \<in> set (zset_at S (stream_key sid)). fst z \<le> now - olderThanMs \<longrightarrow>
        vals (snd (cleanupOldEvents sid olderThanMs now S)) (event_key (snd z)) = None \<and>
        replayEventsAfter parse (snd z) send k (snd (cleanupOldEvents sid olderThanMs now S)) = (Inr [], k)) \<and>
    zRangeByScore (stream_key sid) NegInf PosInf (snd (cleanupOldEvents sid olderThanMs now S))
      = Inr (map snd (filter (\<lambda>z. now - olderThanMs < fst z) (zset_at S (stream_key sid)))) \<and>
    (\<forall>e. e \<notin> snd ` {z \<in> set (zset_at S (stream_key sid)). fst z \<le> now - olderThanMs} \<longrightarrow>
        vals (snd (cleanupOldEvents sid olderThanMs now S)) (event_key e) = vals S (event_key e))"
proof (cases "vals S (stream_key sid)")
  case None
  then have z: "zset_at S (stream_key sid) = []" by (simp add: zset_at_def)
  show ?thesis
    using None by (simp add: cleanupOldEvents_no_index [OF None] z zRangeByScore_def)
next
  case (Some v)
  then obtain zs where zs: "vals S (stream_key sid) = Some (ZSet zs)"
    using assms by (cases v) (auto simp: no_hash_at_def)
  have z: "zset_at S (stream_key sid) = zs" by (simp add: zset_at_def zs)
  show ?thesis
    unfolding z by (rule cleanupOldEvents_with_index [OF zs])
qed

theorem cleanupOldEvents_inclusive_cutoff_witness:
  "vals scenario_store (stream_key ''s1'')
     = Some (ZSet [(100, ''s1_100_aaaaaaaa''), (150, ''s1_150_bbbbbbbb'')]) \<and>
   fst (cleanupOldEvents ''s1'' 100 220 scenario_store) = Inr () \<and>
   vals (snd (cleanupOldEvents ''s1'' 100 220 scenario_store)) (event_key ''s1_100_aaaaaaaa'') = None \<and>
   replayEventsAfter Some ''s1_100_aaaaaaaa'' recording_sink []
       (snd (cleanupOldEvents ''s1'' 100 220 scenario_store)) = (Inr [], []) \<and>
   zRangeByScore (stream_key ''s1'') NegInf PosInf (snd (cleanupOldEvents ''s1'' 100 220 scenario_store))
     = Inr [''s1_150_bbbbbbbb''] \<and>
   vals (snd (cleanupOldEvents ''s1'' 100 220 scenario_store)) (event_key ''s1_150_bbbbbbbb'')
     = vals scenario_store (event_key ''s1_150_bbbbbbbb'')"
proof -
  have h: "vals scenario_store (stream_key ''s1'')
     = Some (ZSet [(100, ''s1_100_aaaaaaaa''), (150, ''s1_150_bbbbbbbb'')])"
    by (simp add: vals_scenario_store event_key_def stream_key_def)
  have notold: "''s1_150_bbbbbbbb'' \<notin> snd ` {z \<in> set [(100, ''s1_100_aaaaaaaa''), (150::int, ''s1_150_bbbbbbbb'')].
                    fst z \<le> 220 - 100}"
    by auto
  have nh: "no_hash_at scenario_store (stream_key ''s1'')" by (simp add: no_hash_at_def h)
  have z: "zset_at scenario_store (stream_key ''s1'')
     = [(100, ''s1_100_aaaaaaaa''), (150, ''s1_150_bbbbbbbb'')]"
    by (simp add: zset_at_def h)
  show ?thesis
    using cleanupOldEvents_inclusive_cutoff [OF nh, of 100 220 Some recording_sink "[]"] h notold
    by (simp add: z)
qed

section \<open>Facts about the session registry\<close>

lemma parseInt_NaN: "parseInt ''NaN'' = NaN"
  by (simp add: parseInt_def is_ws_def strip_sign_def is_digit_def)

lemma parseInt_toString: "parseInt (toString x) = x"
  by (cases x) (simp_all add: parseInt_int_toString parseInt_NaN)

lemma toString_nonempty: "toString x \<noteq> []"
  by (cases x) (simp_all add: int_toString_nonempty)

lemma hSet_no_zset:
  "no_zset_at S key \<Longrightarrow>
   hSet key fvs S = Inr (S\<lparr>vals := (vals S)(key \<mapsto> Hash (foldl (\<lambda>h (f, v). h(f \<mapsto> v)) (hash_at S key) fvs))\<rparr>)"
  unfolding no_zset_at_def hSet_def hash_at_def
  by (auto split: option.splits rvalue.splits)

lemma vals_expire: "vals (expire key n S) = vals S"
  by (simp add: expire_def)

lemma getSession_vals:
  "vals S (session_key sid) = Some (Hash h) \<Longrightarrow> h ''sessionId'' = Some v \<Longrightarrow> v \<noteq> [] \<Longrightarrow>
   getSession parse sid S = Inr (Some (deserializeMetadata parse h))"
  by (simp add: getSession_def hGetAll_def)

lemma getSession_SomeD:
  assumes "getSession parse sid S = Inr (Some md)"
  shows "\<exists>h v. vals S (session_key sid) = Some (Hash h) \<and> h ''sessionId'' = Some v \<and> v \<noteq> [] \<and>
               md = deserializeMetadata parse h"
  using assms
  by (auto simp: getSession_def hGetAll_def split: option.splits rvalue.splits if_splits)

lemma deserialize_serialized:
  assumes "sessionId md = Some v" and "transportType md = Some t"
    and "sseState md = Some st" and "stringify st \<noteq> []" and "parse (stringify st) = Some st"
  shows "deserializeMetadata parse (foldl (\<lambda>h (f, v). h(f \<mapsto> v)) h0 (serializeMetadata stringify md)) = md"
  using assms
  by (simp add: serializeMetadata_def deserializeMetadata_def Let_def parseInt_toString)


lemma serialized_sessionId:
  "sessionId md = Some v \<Longrightarrow>
   foldl (\<lambda>h (f, v). h(f \<mapsto> v)) h0 (serializeMetadata stringify md) ''sessionId'' = Some v"
  by (cases "transportType md"; cases "sseState md") (simp_all add: serializeMetadata_def)

lemma write_then_read:
  assumes nz: "no_zset_at S (session_key sid)"
    and id: "sessionId md = Some v" "v \<noteq> []" and ty: "transportType md = Some t"
    and st: "sseState md = Some st" "stringify st \<noteq> []" "parse (stringify st) = Some st"
  shows "\<exists>S1. hSet (session_key sid) (serializeMetadata stringify md) S = Inr S1 \<and>
      getSession parse sid S1 = Inr (Some md) \<and>
      (\<forall>k. k \<noteq> session_key sid \<longrightarrow> vals S1 k = vals S k) \<and> ttl S1 = ttl S \<and>
      vals S1 (session_key sid) \<noteq> None"
proof -
  let ?h = "foldl (\<lambda>h (f, v). h(f \<mapsto> v)) (hash_at S (session_key sid)) (serializeMetadata stringify md)"
  let ?S1 = "S\<lparr>vals := (vals S)(session_key sid \<mapsto> Hash ?h)\<rparr>"
  have w: "hSet (session_key sid) (serializeMetadata stringify md) S = Inr ?S1"
    using hSet_no_zset [OF nz] .
  have v: "vals ?S1 (session_key sid) = Some (Hash ?h)" by simp
  have r: "getSession parse sid ?S1 = Inr (Some md)"
    using getSession_vals [OF v serialized_sessionId [OF id(1)] id(2), of parse]
    by (simp only: deserialize_serialized [where stringify = stringify and parse = parse, OF id(1) ty st])
  show ?thesis using w r by auto
qed

lemma markSessionDisconnected_effect:
  assumes "getSession parse sid S = Inr (Some md)"
    and "transportType md = Some ''sse''" and "sseState md = Some st"
    and "stringify (st\<lparr>isConnected := False\<rparr>) \<noteq> []"
    and "parse (stringify (st\<lparr>isConnected := False\<rparr>)) = Some (st\<lparr>isConnected := False\<rparr>)"
  shows "\<exists>S'. markSessionDisconnected stringify parse sid now S = (Inr (), S') \<and>
      sessionExists sid S' \<and>
      getSession parse sid S'
        = Inr (Some (md\<lparr>sseState := Some (st\<lparr>isConnected := False\<rparr>), lastActive := Num now\<rparr>)) \<and>
      isSSEConnected parse sid S' = Inr False \<and>
      (\<forall>k. k \<noteq> session_key sid \<longrightarrow> vals S' k = vals S k) \<and> ttl S' = ttl S"
proof -
  let ?md' = "md\<lparr>sseState := Some (st\<lparr>isConnected := False\<rparr>), lastActive := Num now\<rparr>"
  obtain h v where h: "vals S (session_key sid) = Some (Hash h)" "h ''sessionId'' = Some v" "v \<noteq> []"
    "md = deserializeMetadata parse h"
    using getSession_SomeD [OF assms(1)] by blast
  have nz: "no_zset_at S (session_key sid)" using h(1) by (simp add: no_zset_at_def)
  have id: "sessionId ?md' = Some v"
    using h(2,4) by (simp add: deserializeMetadata_def Let_def split: option.splits if_splits)
  have ty: "transportType ?md' = Some ''sse''" using assms(2) by simp
  have ss: "sseState ?md' = Some (st\<lparr>isConnected := False\<rparr>)" by simp
  obtain S1 where w: "hSet (session_key sid) (serializeMetadata stringify ?md') S = Inr S1"
    and r: "getSession parse sid S1 = Inr (Some ?md')"
    and o: "\<forall>k. k \<noteq> session_key sid \<longrightarrow> vals S1 k = vals S k" "ttl S1 = ttl S"
    and e: "vals S1 (session_key sid) \<noteq> None"
    using write_then_read [where stringify = stringify and parse = parse, OF nz id h(3) ty ss assms(4) assms(5)] by blast
  have m: "markSessionDisconnected stringify parse sid now S = (Inr (), S1)"
    by (simp add: markSessionDisconnected_def assms(1,2,3) Let_def w)
  have x: "sessionExists sid S1" using e by (simp add: sessionExists_def exists_def)
  have c: "isSSEConnected parse sid S1 = Inr False"
    by (simp add: isSSEConnected_def r)
  show ?thesis using m x r c o by blast
qed

lemma registerSession_effect:
  assumes "no_zset_at S (session_key sid)"
  shows "registerSession stringify sid r tt c a S N =
     (Inr (),
      expire (session_key sid) (30 * 60)
        (S\<lparr>vals := (vals S)(session_key sid \<mapsto>
              Hash (foldl (\<lambda>h (f, v). h(f \<mapsto> v)) (hash_at S (session_key sid))
                 (serializeMetadata stringify
                    \<lparr>sessionId = Some sid, transportType = Some (transport_type_name tt),
                     createdAt = Num c, lastActive = Num a,
                     sseState = (if tt = SSE then Some \<lparr>isConnected = True, lastEventId = None\<rparr>
                                 else None)\<rparr>)))\<rparr>),
      N\<lparr>localTransports := (localTransports N)(sid \<mapsto> r),
        heap := (heap N)[r := (heap N ! r)\<lparr>t_onclose := Some (Stateless_onclose sid)\<rparr>]\<rparr>)"
  by (simp add: registerSession_def Let_def hSet_no_zset [OF assms])

lemma sessionExists_expire: "sessionExists sid (expire k n S) = sessionExists sid S"
  by (simp add: sessionExists_def exists_def vals_expire)

lemma getSession_expire: "getSession parse sid (expire k n S) = getSession parse sid S"
  by (simp add: getSession_def hGetAll_def vals_expire)

lemma serialized_transportType:
  "transportType md = Some t \<Longrightarrow>
   foldl (\<lambda>h (f, v). h(f \<mapsto> v)) h0 (serializeMetadata stringify md) ''transportType'' = Some t"
  by (cases "sessionId md"; cases "sseState md") (simp_all add: serializeMetadata_def)

lemma transportType_deserialize:
  "transportType (deserializeMetadata parse h) = h ''transportType''"
  by (simp add: deserializeMetadata_def Let_def split: option.splits)

lemma markSessionDisconnected_untouched:
  "getSession parse sid S = Inr None \<or>
   (\<exists>md. getSession parse sid S = Inr (Some md) \<and>
         (transportType md \<noteq> Some ''sse'' \<or> sseState md = None))
   \<Longrightarrow> markSessionDisconnected stringify parse sid now S = (Inr (), S)"
  by (auto simp: markSessionDisconnected_def)

lemma markSessionDisconnected_raises:
  "getSession parse sid S = Inl e \<Longrightarrow> markSessionDisconnected stringify parse sid now S = (Inl e, S)"
  by (simp add: markSessionDisconnected_def)

lemma run_stateless_hook:
  "t_onclose (heap N ! r) = Some (Stateless_onclose sid) \<Longrightarrow>
   run_onclose stringify parse r now S N =
     (case markSessionDisconnected stringify parse sid now S of
        (Inl e, S1) \<Rightarrow> (Inl e, S1, N)
      | (Inr u, S1) \<Rightarrow> (Inr (), S1, N\<lparr>localTransports := (localTransports N)(sid := None)\<rparr>))"
  by (simp add: run_onclose_def stateless_onclose_def)

lemma stateless_hook_effect:
  assumes hook: "t_onclose (heap N ! r) = Some (Stateless_onclose sid)"
  shows "(\<forall>e. getSession parse sid S = Inl e \<longrightarrow>
            run_onclose stringify parse r now S N = (Inl e, S, N)) \<and>
     (getSession parse sid S = Inr None \<or>
      (\<exists>md. getSession parse sid S = Inr (Some md) \<and>
            (transportType md \<noteq> Some ''sse'' \<or> sseState md = None)) \<longrightarrow>
        run_onclose stringify parse r now S N
          = (Inr (), S, N\<lparr>localTransports := (localTransports N)(sid := None)\<rparr>)) \<and>
     (\<forall>md st. getSession parse sid S = Inr (Some md) \<and> transportType md = Some ''sse'' \<and>
              sseState md = Some st \<and> stringify (st\<lparr>isConnected := False\<rparr>) \<noteq> [] \<and>
              parse (stringify (st\<lparr>isConnected := False\<rparr>)) = Some (st\<lparr>isConnected := False\<rparr>) \<longrightarrow>
        (\<exists>S'. run_onclose stringify parse r now S N
                = (Inr (), S', N\<lparr>localTransports := (localTransports N)(sid := None)\<rparr>) \<and>
              sessionExists sid S' \<and>
              getSession parse sid S'
                = Inr (Some (md\<lparr>sseState := Some (st\<lparr>isConnected := False\<rparr>), lastActive := Num now\<rparr>)) \<and>
              isSSEConnected parse sid S' = Inr False))"
proof (intro conjI allI impI)
  fix e assume "getSession parse sid S = Inl e"
  then show "run_onclose stringify parse r now S N = (Inl e, S, N)"
    by (simp add: run_stateless_hook [OF hook] markSessionDisconnected_raises)
next
  assume "getSession parse sid S = Inr None \<or>
      (\<exists>md. getSession parse sid S = Inr (Some md) \<and>
            (transportType md \<noteq> Some ''sse'' \<or> sseState md = None))"
  then have "markSessionDisconnected stringify parse sid now S = (Inr (), S)"
    by (rule markSessionDisconnected_untouched)
  then show "run_onclose stringify parse r now S N
          = (Inr (), S, N\<lparr>localTransports := (localTransports N)(sid := None)\<rparr>)"
    by (simp add: run_stateless_hook [OF hook])
next
  fix md st
  assume a: "getSession parse sid S = Inr (Some md) \<and> transportType md = Some ''sse'' \<and>
              sseState md = Some st \<and> stringify (st\<lparr>isConnected := False\<rparr>) \<noteq> [] \<and>
              parse (stringify (st\<lparr>isConnected := False\<rparr>)) = Some (st\<lparr>isConnected := False\<rparr>)"
  obtain S' where m: "markSessionDisconnected stringify parse sid now S = (Inr (), S')"
    and x: "sessionExists sid S'"
    and g: "getSession parse sid S'
        = Inr (Some (md\<lparr>sseState := Some (st\<lparr>isConnected := False\<rparr>), lastActive := Num now\<rparr>))"
    and c: "isSSEConnected parse sid S' = Inr False"
    using markSessionDisconnected_effect [where stringify = stringify and parse = parse
        and sid = sid and S = S and md = md and st = st and now = now] a
    by blast
  have "run_onclose stringify parse r now S N
                = (Inr (), S', N\<lparr>localTransports := (localTransports N)(sid := None)\<rparr>)"
    by (simp add: run_stateless_hook [OF hook] m)
  then show "\<exists>S'. run_onclose stringify parse r now S N
                = (Inr (), S', N\<lparr>localTransports := (localTransports N)(sid := None)\<rparr>) \<and>
              sessionExists sid S' \<and>
              getSession parse sid S'
                = Inr (Some (md\<lparr>sseState := Some (st\<lparr>isConnected := False\<rparr>), lastActive := Num now\<rparr>)) \<and>
              isSSEConnected parse sid S' = Inr False"
    using x g c by blast
qed

lemma owning_hook_effect:
  assumes hook: "t_onclose (heap N ! r) = Some (Owning_onclose sid)"
  shows "run_onclose stringify parse r now S N
           = (Inr (), del (session_key sid) S, N\<lparr>localTransports := (localTransports N)(sid := None)\<rparr>) \<and>
         \<not> sessionExists sid (del (session_key sid) S)"
  by (simp add: run_onclose_def hook owning_onclose_def owning_unregisterSession_def
      sessionExists_def exists_def del_def)

lemma registerSession_installs:
  assumes nz: "no_zset_at S (session_key sid)" and r: "r < length (heap N)"
  shows "\<exists>S1 N1. registerSession stringify sid r tt c a S N = (Inr (), S1, N1) \<and>
      t_onclose (heap N1 ! r) = Some (Stateless_onclose sid) \<and>
      getLocalTransport sid N1 = Some r \<and>
      sessionExists sid S1 \<and>
      (tt = Streamable \<longrightarrow>
         getSession parse sid S1 = Inr None \<or>
         (\<exists>md. getSession parse sid S1 = Inr (Some md) \<and> transportType md \<noteq> Some ''sse'')) \<and>
      (tt = SSE \<and> sid \<noteq> [] \<and>
       stringify \<lparr>isConnected = True, lastEventId = None\<rparr> \<noteq> [] \<and>
       parse (stringify \<lparr>isConnected = True, lastEventId = None\<rparr>)
         = Some \<lparr>isConnected = True, lastEventId = None\<rparr> \<longrightarrow>
         getSession parse sid S1
           = Inr (Some \<lparr>sessionId = Some sid, transportType = Some ''sse'', createdAt = Num c,
                         lastActive = Num a,
                         sseState = Some \<lparr>isConnected = True, lastEventId = None\<rparr>\<rparr>))"
proof -
  let ?md = "\<lparr>sessionId = Some sid, transportType = Some (transport_type_name tt),
              createdAt = Num c, lastActive = Num a,
              sseState = (if tt = SSE then Some \<lparr>isConnected = True, lastEventId = None\<rparr>
                          else None)\<rparr>"
  define h where "h = foldl (\<lambda>h (f, v). h(f \<mapsto> v)) (hash_at S (session_key sid))
                        (serializeMetadata stringify ?md)"
  define S1 where "S1 = expire (session_key sid) (30 * 60) (S\<lparr>vals := (vals S)(session_key sid \<mapsto> Hash h)\<rparr>)"
  define N1 where "N1 = N\<lparr>localTransports := (localTransports N)(sid \<mapsto> r),
        heap := (heap N)[r := (heap N ! r)\<lparr>t_onclose := Some (Stateless_onclose sid)\<rparr>]\<rparr>"
  have reg: "registerSession stringify sid r tt c a S N = (Inr (), S1, N1)"
    using registerSession_effect [OF nz, of stringify r tt c a N]
    by (simp add: S1_def N1_def h_def)
  have hook: "t_onclose (heap N1 ! r) = Some (Stateless_onclose sid)"
    using r by (simp add: N1_def)
  have loc: "getLocalTransport sid N1 = Some r"
    by (simp add: N1_def getLocalTransport_def)
  have v: "vals S1 (session_key sid) = Some (Hash h)" by (simp add: S1_def vals_expire)
  have x: "sessionExists sid S1" by (simp add: sessionExists_def exists_def v)
  have ty: "h ''transportType'' = Some (transport_type_name tt)"
    unfolding h_def by (rule serialized_transportType) simp
  have k1: "getSession parse sid S1 = Inr None \<or>
         (\<exists>md. getSession parse sid S1 = Inr (Some md) \<and> transportType md \<noteq> Some ''sse'')"
    if "tt = Streamable"
    using that
    by (auto simp: getSession_def hGetAll_def v transportType_deserialize ty split: option.splits)
  have k2: "getSession parse sid S1
           = Inr (Some \<lparr>sessionId = Some sid, transportType = Some ''sse'', createdAt = Num c,
                         lastActive = Num a,
                         sseState = Some \<lparr>isConnected = True, lastEventId = None\<rparr>\<rparr>)"
    if "tt = SSE \<and> sid \<noteq> [] \<and>
       stringify \<lparr>isConnected = True, lastEventId = None\<rparr> \<noteq> [] \<and>
       parse (stringify \<lparr>isConnected = True, lastEventId = None\<rparr>)
         = Some \<lparr>isConnected = True, lastEventId = None\<rparr>"
  proof -
    let ?m = "\<lparr>sessionId = Some sid, transportType = Some ''sse'', createdAt = Num c,
                lastActive = Num a, sseState = Some \<lparr>isConnected = True, lastEventId = None\<rparr>\<rparr>"
    have hm: "h = foldl (\<lambda>h (f, v). h(f \<mapsto> v)) (hash_at S (session_key sid))
                        (serializeMetadata stringify ?m)"
      using that by (simp add: h_def)
    have sidf: "h ''sessionId'' = Some sid"
      unfolding hm by (rule serialized_sessionId) simp
    have d: "deserializeMetadata parse h = ?m"
      unfolding hm
      using that
      by (intro deserialize_serialized [where stringify = stringify and parse = parse
            and v = sid and t = "''sse''" and st = "\<lparr>isConnected = True, lastEventId = None\<rparr>"])
         simp_all
    show ?thesis
      using getSession_vals [OF v sidf, of parse] that by (simp add: d)
  qed
  show ?thesis using reg hook loc x k1 k2 by blast
qed

lemma owning_registerSession_installs:
  assumes nz: "no_zset_at S (session_key sid)" and r: "r < length (heap N)"
  shows "\<exists>S1 N1. owning_registerSession sid r tt c a S N = (Inr (), S1, N1) \<and>
      t_onclose (heap N1 ! r) = Some (Owning_onclose sid) \<and>
      getLocalTransport sid N1 = Some r \<and>
      sessionExists sid S1"
  using r
  by (simp add: owning_registerSession_def Let_def hSet_no_zset [OF nz] sessionExists_def
      exists_def vals_expire getLocalTransport_def)


lemma int_toString_10: "int_toString 10 = ''10''"
  by (simp add: int_toString_def nat_toString.simps digit_char_def)

lemma parseInt_10: "parseInt ''10'' = Num 10"
  using parseInt_int_toString [of 10] by (simp add: int_toString_10)

lemma sse_codec:
  "sse_stringify \<lparr>isConnected = b, lastEventId = None\<rparr> \<noteq> [] \<and>
   sse_parse (sse_stringify \<lparr>isConnected = b, lastEventId = None\<rparr>)
     = Some \<lparr>isConnected = b, lastEventId = None\<rparr>"
  by (cases b) (simp_all add: sse_stringify_def sse_parse_def sse_text_def)

lemma registerSession_sse_example:
  "registerSession sse_stringify ''abc'' 1 SSE 10 10 fresh_store example_node
     = (Inr (), sse_session_store,
        example_node\<lparr>localTransports := [''abc'' \<mapsto> 1],
          heap := (heap example_node)[1 := (heap example_node ! 1)\<lparr>t_onclose := Some (Stateless_onclose ''abc'')\<rparr>]\<rparr>)"
  by (simp add: registerSession_def serializeMetadata_def hSet_def expire_def fresh_store_def
      sse_session_store_def sse_stringify_def int_toString_10 example_node_def Let_def)

lemma getSession_sse_example:
  "getSession sse_parse ''abc'' sse_session_store
     = Inr (Some \<lparr>sessionId = Some ''abc'', transportType = Some ''sse'', createdAt = Num 10,
                   lastActive = Num 10,
                   sseState = Some \<lparr>isConnected = True, lastEventId = None\<rparr>\<rparr>)"
  by (simp add: getSession_def hGetAll_def sse_session_store_def deserializeMetadata_def
      parseInt_10 sse_parse_def sse_text_def Let_def)

section \<open>Marking a session disconnected\<close>

text \<open>
  C7 as stated fails: for the streaming session whose record carries a sub-state blob
  that does not decode, the record exists and is of the streaming kind, yet
  \<open>markSessionDisconnected\<close> writes nothing: the store is as before and \<open>lastActive\<close>
  still reads 10.
\<close>

theorem markSessionDisconnected_skips_undecodable_substate:
  "sessionExists ''abc'' broken_sse_store \<and>
   getSession sse_parse ''abc'' broken_sse_store
     = Inr (Some \<lparr>sessionId = Some ''abc'', transportType = Some ''sse'', createdAt = Num 10,
                   lastActive = Num 10, sseState = None\<rparr>) \<and>
   markSessionDisconnected sse_stringify sse_parse ''abc'' 50 broken_sse_store
     = (Inr (), broken_sse_store)"
  by (simp add: sessionExists_def exists_def markSessionDisconnected_def getSession_def hGetAll_def
      broken_sse_store_def deserializeMetadata_def parseInt_10 sse_parse_def sse_text_def Let_def)

text \<open>
  C7, amended. For every session whose record exists, is of the streaming kind and has a
  sub-state that decodes (the sub-state with the flag cleared surviving
  \<open>JSON.stringify\<close> then \<open>JSON.parse\<close>), \<open>markSessionDisconnected\<close> raises nothing,
  sets the flag of the sub-state to false and \<open>lastActive\<close> to the clock reading, and
  changes nothing else of the metadata, no other key and no time-to-live: afterwards
  \<open>sessionExists\<close> is true, \<open>getSession\<close> returns the metadata so updated, and
  \<open>isSSEConnected\<close> is false.
\<close>

theorem markSessionDisconnected_marks:
  assumes "getSession parse sid S = Inr (Some md)"
    and "transportType md = Some ''sse''" and "sseState md = Some st"
    and "stringify (st\<lparr>isConnected := False\<rparr>) \<noteq> []"
    and "parse (stringify (st\<lparr>isConnected := False\<rparr>)) = Some (st\<lparr>isConnected := False\<rparr>)"
  shows "\<exists>S'. markSessionDisconnected stringify parse sid now S = (Inr (), S') \<and>
      sessionExists sid S' \<and>
      getSession parse sid S'
        = Inr (Some (md\<lparr>sseState := Some (st\<lparr>isConnected := False\<rparr>), lastActive := Num now\<rparr>)) \<and>
      isSSEConnected parse sid S' = Inr False \<and>
      (\<forall>k. k \<noteq> session_key sid \<longrightarrow> vals S' k = vals S k) \<and> ttl S' = ttl S"
  using markSessionDisconnected_effect [where stringify = stringify and parse = parse, OF assms] .

theorem markSessionDisconnected_marks_witness:
  "getSession sse_parse ''abc'' sse_session_store
     = Inr (Some \<lparr>sessionId = Some ''abc'', transportType = Some ''sse'', createdAt = Num 10,
                   lastActive = Num 10,
                   sseState = Some \<lparr>isConnected = True, lastEventId = None\<rparr>\<rparr>) \<and>
   fst (markSessionDisconnected sse_stringify sse_parse ''abc'' 50 sse_session_store) = Inr () \<and>
   sessionExists ''abc'' (snd (markSessionDisconnected sse_stringify sse_parse ''abc'' 50 sse_session_store)) \<and>
   getSession sse_parse ''abc'' (snd (markSessionDisconnected sse_stringify sse_parse ''abc'' 50 sse_session_store))
     = Inr (Some \<lparr>sessionId = Some ''abc'', transportType = Some ''sse'', createdAt = Num 10,
                   lastActive = Num 50,
                   sseState = Some \<lparr>isConnected = False, lastEventId = None\<rparr>\<rparr>) \<and>
   isSSEConnected sse_parse ''abc'' (snd (markSessionDisconnected sse_stringify sse_parse ''abc'' 50 sse_session_store))
     = Inr False"
  using markSessionDisconnected_marks [where stringify = sse_stringify and parse = sse_parse
      and sid = "''abc''" and S = sse_session_store and now = 50
      and st = "\<lparr>isConnected = True, lastEventId = None\<rparr>", OF getSession_sse_example]
    sse_codec [of False] getSession_sse_example
  by auto

section \<open>Restoring a stream handle on another node\<close>

lemma getOrCreateSSETransport_throws:
  assumes "getSession parse sid S = Inr (Some md)"
    and "transportType md = Some ''sse''"
    and "local_sse_transport sid N = None"
  shows "getOrCreateSSETransport stringify parse sid (Some res) uuid S N
           = (Inl TypeError, S, N\<lparr>heap := heap N @ [new_SSEServerTransport ''/messages'' res uuid]\<rparr>)"
  by (simp add: getOrCreateSSETransport_def assms Let_def assign_sessionId_def
      new_SSEServerTransport_def)

text \<open>
  C2. The claim: when the record of \<open>sid\<close> exists with the streaming kind and the node
  holds no local handle for \<open>sid\<close>, \<open>getOrCreateSSETransport\<close> with a response object
  returns a new handle whose session identifier is \<open>sid\<close>, and \<open>getLocalTransport\<close>
  then returns that handle. The code builds the new transport and then assigns to its
  session identifier, which throws (\<open>getOrCreateSSETransport_throws\<close>): for the
  session \<open>abc\<close> registered by one node and restored on another that holds nothing,
  the call raises \<open>TypeError\<close>, returns no handle, leaves the store as it was, and the
  local cache of the node still has no handle for \<open>abc\<close>.
\<close>

theorem getOrCreateSSETransport_raises_TypeError:
  "getSession sse_parse ''abc'' sse_session_store
     = Inr (Some \<lparr>sessionId = Some ''abc'', transportType = Some ''sse'', createdAt = Num 10,
                   lastActive = Num 10,
                   sseState = Some \<lparr>isConnected = True, lastEventId = None\<rparr>\<rparr>) \<and>
   getLocalTransport ''abc'' other_node = None \<and>
   getOrCreateSSETransport sse_stringify sse_parse ''abc'' (Some ()) ''fresh-uuid''
       sse_session_store other_node
     = (Inl TypeError, sse_session_store,
        other_node\<lparr>heap := [new_SSEServerTransport ''/messages'' () ''fresh-uuid'']\<rparr>) \<and>
   getLocalTransport ''abc''
       (snd (snd (getOrCreateSSETransport sse_stringify sse_parse ''abc'' (Some ()) ''fresh-uuid''
                    sse_session_store other_node))) = None"
proof -
  have loc: "local_sse_transport ''abc'' other_node = None"
    by (simp add: local_sse_transport_def other_node_def)
  have run: "getOrCreateSSETransport sse_stringify sse_parse ''abc'' (Some ()) ''fresh-uuid''
       sse_session_store other_node
     = (Inl TypeError, sse_session_store,
        other_node\<lparr>heap := [new_SSEServerTransport ''/messages'' () ''fresh-uuid'']\<rparr>)"
    using getOrCreateSSETransport_throws [OF getSession_sse_example _ loc, of sse_stringify "()" "''fresh-uuid''"]
    by (simp add: other_node_def)
  show ?thesis
    by (simp only: run snd_conv)
       (simp add: getSession_sse_example getLocalTransport_def other_node_def)
qed

section \<open>The close hook\<close>

text \<open>
  C6 as stated fails: in the stateless variant, when the hook of a registered
  request/response session runs, the record is neither deleted nor marked: the store
  after the hook is the store before it, the record still exists, and only the local
  handle is dropped.
\<close>

theorem stateless_onclose_keeps_streamable_record:
  "fst streamable_registration = Inr () \<and>
   sessionExists ''xyz'' (fst (snd streamable_registration)) \<and>
   t_onclose (heap (snd (snd streamable_registration)) ! 0) = Some (Stateless_onclose ''xyz'') \<and>
   fst (run_onclose sse_stringify sse_parse 0 50 (fst (snd streamable_registration))
          (snd (snd streamable_registration))) = Inr () \<and>
   fst (snd (run_onclose sse_stringify sse_parse 0 50 (fst (snd streamable_registration))
          (snd (snd streamable_registration)))) = fst (snd streamable_registration) \<and>
   isSSEConnected sse_parse ''xyz'' (fst (snd streamable_registration)) = Inr False"
  by (simp add: streamable_registration_def registerSession_def serializeMetadata_def hSet_def
      expire_def fresh_store_def example_node_def sessionExists_def exists_def run_onclose_def
      stateless_onclose_def markSessionDisconnected_def getSession_def hGetAll_def
      deserializeMetadata_def isSSEConnected_def int_toString_10 Let_def)

text \<open>
  C6, amended. Registration of a session with a live transport, at a key that holds no
  sorted set, succeeds in both variants, whatever the transport type; it writes the
  record, puts the transport in the local cache and installs the close hook: in the
  stateless variant the hook that calls \<open>markSessionDisconnected\<close> and then drops the
  local handle, in the ownership-tracking variant the hook that unregisters. The
  record that the stateless variant writes for a request/response session reads back
  as not of the streaming kind (or, under an empty identifier, as no session); the one
  it writes for a streaming session under a non-empty identifier reads back with the
  connected sub-state, when that sub-state survives \<open>JSON.stringify\<close> then
  \<open>JSON.parse\<close>.

  Whenever a transport that carries the hook closes, in whatever state the store and
  the node are then: the ownership-tracking hook deletes the record and drops the local
  handle. The stateless hook never deletes the record. If reading the record fails,
  the hook raises that error and changes nothing. If the record is absent, has no
  identifier, is not of the streaming kind or has no decodable sub-state, the store is
  left exactly as it is and the local handle is dropped. If the record is of the
  streaming kind and has a sub-state (the sub-state with the flag cleared surviving
  \<open>JSON.stringify\<close> then \<open>JSON.parse\<close>), the record is kept, its flag is false and
  its \<open>lastActive\<close> is the clock reading, and the local handle is dropped.
\<close>

theorem onclose_after_registerSession:
  assumes "no_zset_at S (session_key sid)" and "r < length (heap N)"
  shows "(\<exists>S1 N1. registerSession stringify sid r tt c a S N = (Inr (), S1, N1) \<and>
      t_onclose (heap N1 ! r) = Some (Stateless_onclose sid) \<and>
      getLocalTransport sid N1 = Some r \<and>
      sessionExists sid S1 \<and>
      (tt = Streamable \<longrightarrow>
         getSession parse sid S1 = Inr None \<or>
         (\<exists>md. getSession parse sid S1 = Inr (Some md) \<and> transportType md \<noteq> Some ''sse'')) \<and>
      (tt = SSE \<and> sid \<noteq> [] \<and>
       stringify \<lparr>isConnected = True, lastEventId = None\<rparr> \<noteq> [] \<and>
       parse (stringify \<lparr>isConnected = True, lastEventId = None\<rparr>)
         = Some \<lparr>isConnected = True, lastEventId = None\<rparr> \<longrightarrow>
         getSession parse sid S1
           = Inr (Some \<lparr>sessionId = Some sid, transportType = Some ''sse'', createdAt = Num c,
                         lastActive = Num a,
                         sseState = Some \<lparr>isConnected = True, lastEventId = None\<rparr>\<rparr>)))
    \<and> (\<exists>S1 N1. owning_registerSession sid r tt c a S N = (Inr (), S1, N1) \<and>
      t_onclose (heap N1 ! r) = Some (Owning_onclose sid) \<and>
      getLocalTransport sid N1 = Some r \<and>
      sessionExists sid S1)
    \<and> (t_onclose (heap N' ! r') = Some (Stateless_onclose sid) \<longrightarrow>
     (\<forall>e. getSession parse sid S' = Inl e \<longrightarrow>
            run_onclose stringify parse r' now S' N' = (Inl e, S', N')) \<and>
     (getSession parse sid S' = Inr None \<or>
      (\<exists>md. getSession parse sid S' = Inr (Some md) \<and>
            (transportType md \<noteq> Some ''sse'' \<or> sseState md = None)) \<longrightarrow>
        run_onclose stringify parse r' now S' N'
          = (Inr (), S', N'\<lparr>localTransports := (localTransports N')(sid := None)\<rparr>)) \<and>
     (\<forall>md st. getSession parse sid S' = Inr (Some md) \<and> transportType md = Some ''sse'' \<and>
              sseState md = Some st \<and> stringify (st\<lparr>isConnected := False\<rparr>) \<noteq> [] \<and>
              parse (stringify (st\<lparr>isConnected := False\<rparr>)) = Some (st\<lparr>isConnected := False\<rparr>) \<longrightarrow>
        (\<exists>S''. run_onclose stringify parse r' now S' N'
                = (Inr (), S'', N'\<lparr>localTransports := (localTransports N')(sid := None)\<rparr>) \<and>
              sessionExists sid S'' \<and>
              getSession parse sid S''
                = Inr (Some (md\<lparr>sseState := Some (st\<lparr>isConnected := False\<rparr>), lastActive := Num now\<rparr>)) \<and>
              isSSEConnected parse sid S'' = Inr False)))
    \<and> (t_onclose (heap N' ! r') = Some (Owning_onclose sid) \<longrightarrow>
         run_onclose stringify parse r' now S' N'
           = (Inr (), del (session_key sid) S', N'\<lparr>localTransports := (localTransports N')(sid := None)\<rparr>) \<and>
         \<not> sessionExists sid (del (session_key sid) S'))"
proof (intro conjI impI)
  show "\<exists>S1 N1. registerSession stringify sid r tt c a S N = (Inr (), S1, N1) \<and>
      t_onclose (heap N1 ! r) = Some (Stateless_onclose sid) \<and>
      getLocalTransport sid N1 = Some r \<and>
      sessionExists sid S1 \<and>
      (tt = Streamable \<longrightarrow>
         getSession parse sid S1 = Inr None \<or>
         (\<exists>md. getSession parse sid S1 = Inr (Some md) \<and> transportType md \<noteq> Some ''sse'')) \<and>
      (tt = SSE \<and> sid \<noteq> [] \<and>
       stringify \<lparr>isConnected = True, lastEventId = None\<rparr> \<noteq> [] \<and>
       parse (stringify \<lparr>isConnected = True, lastEventId = None\<rparr>)
         = Some \<lparr>isConnected = True, lastEventId = None\<rparr> \<longrightarrow>
         getSession parse sid S1
           = Inr (Some \<lparr>sessionId = Some sid, transportType = Some ''sse'', createdAt = Num c,
                         lastActive = Num a,
                         sseState = Some \<lparr>isConnected = True, lastEventId = None\<rparr>\<rparr>))"
    by (rule registerSession_installs [OF assms])
next
  show "\<exists>S1 N1. owning_registerSession sid r tt c a S N = (Inr (), S1, N1) \<and>
      t_onclose (heap N1 ! r) = Some (Owning_onclose sid) \<and>
      getLocalTransport sid N1 = Some r \<and>
      sessionExists sid S1"
    by (rule owning_registerSession_installs [OF assms])
next
  assume hook: "t_onclose (heap N' ! r') = Some (Stateless_onclose sid)"
  note e = stateless_hook_effect [OF hook, of parse S' stringify now]
  show "\<forall>e. getSession parse sid S' = Inl e \<longrightarrow>
            run_onclose stringify parse r' now S' N' = (Inl e, S', N')"
    using e by blast
  show "getSession parse sid S' = Inr None \<or>
      (\<exists>md. getSession parse sid S' = Inr (Some md) \<and>
            (transportType md \<noteq> Some ''sse'' \<or> sseState md = None)) \<Longrightarrow>
        run_onclose stringify parse r' now S' N'
          = (Inr (), S', N'\<lparr>localTransports := (localTransports N')(sid := None)\<rparr>)"
    using e by blast
  show "\<forall>md st. getSession parse sid S' = Inr (Some md) \<and> transportType md = Some ''sse'' \<and>
              sseState md = Some st \<and> stringify (st\<lparr>isConnected := False\<rparr>) \<noteq> [] \<and>
              parse (stringify (st\<lparr>isConnected := False\<rparr>)) = Some (st\<lparr>isConnected := False\<rparr>) \<longrightarrow>
        (\<exists>S''. run_onclose stringify parse r' now S' N'
                = (Inr (), S'', N'\<lparr>localTransports := (localTransports N')(sid := None)\<rparr>) \<and>
              sessionExists sid S'' \<and>
              getSession parse sid S''
                = Inr (Some (md\<lparr>sseState := Some (st\<lparr>isConnected := False\<rparr>), lastActive := Num now\<rparr>)) \<and>
              isSSEConnected parse sid S'' = Inr False)"
    using e by blast
next
  assume hook: "t_onclose (heap N' ! r') = Some (Owning_onclose sid)"
  show "run_onclose stringify parse r' now S' N'
           = (Inr (), del (session_key sid) S', N'\<lparr>localTransports := (localTransports N')(sid := None)\<rparr>)"
    using owning_hook_effect [OF hook] by blast
  show "\<not> sessionExists sid (del (session_key sid) S')"
    using owning_hook_effect [OF hook, of stringify parse now S'] by blast
qed


theorem onclose_after_registerSession_witness:
  "no_zset_at fresh_store (session_key ''abc'') \<and> 1 < length (heap example_node) \<and>
   registerSession sse_stringify ''abc'' 1 SSE 10 10 fresh_store example_node
     = (Inr (), sse_session_store, sse_registered_node) \<and>
   t_onclose (heap sse_registered_node ! 1) = Some (Stateless_onclose ''abc'') \<and>
   getSession sse_parse ''abc'' sse_session_store
     = Inr (Some \<lparr>sessionId = Some ''abc'', transportType = Some ''sse'', createdAt = Num 10,
                   lastActive = Num 10,
                   sseState = Some \<lparr>isConnected = True, lastEventId = None\<rparr>\<rparr>) \<and>
   sse_stringify \<lparr>isConnected = False, lastEventId = None\<rparr> \<noteq> [] \<and>
   sse_parse (sse_stringify \<lparr>isConnected = False, lastEventId = None\<rparr>)
     = Some \<lparr>isConnected = False, lastEventId = None\<rparr> \<and>
   (\<exists>S''. run_onclose sse_stringify sse_parse 1 50 sse_session_store sse_registered_node
           = (Inr (), S'',
              sse_registered_node\<lparr>localTransports := (localTransports sse_registered_node)(''abc'' := None)\<rparr>) \<and>
         sessionExists ''abc'' S'' \<and>
         getSession sse_parse ''abc'' S''
           = Inr (Some \<lparr>sessionId = Some ''abc'', transportType = Some ''sse'', createdAt = Num 10,
                         lastActive = Num 50,
                         sseState = Some \<lparr>isConnected = False, lastEventId = None\<rparr>\<rparr>) \<and>
         isSSEConnected sse_parse ''abc'' S'' = Inr False)"
proof -
  have h1: "no_zset_at fresh_store (session_key ''abc'')"
    by (simp add: no_zset_at_def fresh_store_def)
  have h2: "1 < length (heap example_node)" by (simp add: example_node_def)
  have reg: "registerSession sse_stringify ''abc'' 1 SSE 10 10 fresh_store example_node
     = (Inr (), sse_session_store, sse_registered_node)"
    using registerSession_sse_example by (simp add: sse_registered_node_def)
  have hook: "t_onclose (heap sse_registered_node ! 1) = Some (Stateless_onclose ''abc'')"
    by (simp add: sse_registered_node_def example_node_def)
  note codec = sse_codec [of False]
  note T = onclose_after_registerSession [where stringify = sse_stringify and parse = sse_parse
        and S = fresh_store and N = example_node and sid = "''abc''" and r = 1 and tt = SSE
        and c = 10 and a = 10 and now = 50 and S' = sse_session_store and N' = sse_registered_node
        and r' = 1, OF h1 h2]
  note fired = T [THEN conjunct2, THEN conjunct2, THEN conjunct1, THEN mp, OF hook,
        THEN conjunct2, THEN conjunct2, THEN spec, THEN spec, THEN mp,
        of _ "\<lparr>isConnected = True, lastEventId = None\<rparr>"]
  have "\<exists>S''. run_onclose sse_stringify sse_parse 1 50 sse_session_store sse_registered_node
           = (Inr (), S'',
              sse_registered_node\<lparr>localTransports := (localTransports sse_registered_node)(''abc'' := None)\<rparr>) \<and>
         sessionExists ''abc'' S'' \<and>
         getSession sse_parse ''abc'' S''
           = Inr (Some \<lparr>sessionId = Some ''abc'', transportType = Some ''sse'', createdAt = Num 10,
                         lastActive = Num 50,
                         sseState = Some \<lparr>isConnected = False, lastEventId = None\<rparr>\<rparr>) \<and>
         isSSEConnected sse_parse ''abc'' S'' = Inr False"
    using fired [of "\<lparr>sessionId = Some ''abc'', transportType = Some ''sse'', createdAt = Num 10,
                   lastActive = Num 10,
                   sseState = Some \<lparr>isConnected = True, lastEventId = None\<rparr>\<rparr>"]
      getSession_sse_example codec
    by simp
  then show ?thesis
    using h1 h2 reg hook getSession_sse_example codec by (intro conjI) simp_all
qed

end
